theory Spec2Isabelle
  imports Main "HOL-Library.Word" "HOL-Library.Sublist"
begin

unbundle bit_operations_syntax

section \<open>Exceptions\<close>

text \<open>
  The C++ exceptions that travel through the modelled code.  A function that can throw
  returns \<open>exn option\<close> next to the state it leaves behind: \<open>None\<close> is normal
  completion, \<open>Some x\<close> is the exception \<open>x\<close> leaving the function.
\<close>

datatype exn =
    RuntimeError string   \<comment> \<open>\<open>std::runtime_error (what)\<close>\<close>
  | SystemError           \<comment> \<open>\<open>boost::system::system_error\<close>, a \<open>std::runtime_error\<close>\<close>
  | ThreadInterrupted     \<comment> \<open>\<open>boost::thread_interrupted\<close>\<close>
  | NonStd                \<comment> \<open>any exception that does not derive from \<open>std::exception\<close>\<close>

text \<open>Whether a handler \<open>catch (std::exception &)\<close> catches the exception.\<close>

fun std_exception :: "exn \<Rightarrow> bool" where
  "std_exception (RuntimeError m) = True"
| "std_exception SystemError = True"
| "std_exception ThreadInterrupted = False"
| "std_exception NonStd = False"

fun what :: "exn \<Rightarrow> string" where
  "what (RuntimeError m) = m"
| "what x = []"

text \<open>
  The two loops of the program, the watcher's and the server's, are written
  \<open>for ( ; ; )\<close> and end only when an exception leaves them.  They are run on the
  finite list of what their first rounds receive from outside; \<open>Running\<close> says that the
  loop has consumed the list and is still going, \<open>Thrown x\<close> that \<open>x\<close> has ended it.
\<close>

datatype outcome = Running | Thrown exn

section \<open>Filesystem watcher: \<open>clangTags/watch/inotify.cxx\<close>\<close>

type_synonym fname = string

subsection \<open>The watch table\<close>

text \<open>
  Modelled from the spec: the class of \<open>inotifyMap_\<close>, declared in \<open>inotify.hxx\<close>, which
  is not among the sources.  The spec (section 3, WatchTable) describes it as a mapping
  from file name to watch handle with the reverse lookup from handle to file name that
  event decoding needs.  \<open>inotify.cxx\<close> uses three operations of it: \<open>contains\<close>,
  \<open>add\<close> and \<open>fileName\<close>.
\<close>

record watch_table =
  wd_of :: "fname \<rightharpoonup> int"
  file_of :: "int \<rightharpoonup> fname"

definition empty_table :: watch_table where
  "empty_table = \<lparr>wd_of = Map.empty, file_of = Map.empty\<rparr>"

definition contains :: "watch_table \<Rightarrow> fname \<Rightarrow> bool" where
  "contains m f = (wd_of m f \<noteq> None)"

definition add :: "fname \<Rightarrow> int \<Rightarrow> watch_table \<Rightarrow> watch_table" where
  "add f wd m = \<lparr>wd_of = (wd_of m)(f \<mapsto> wd), file_of = (file_of m)(wd \<mapsto> f)\<rparr>"

definition fileName :: "watch_table \<Rightarrow> int \<Rightarrow> fname" where
  "fileName m wd = (case file_of m wd of None \<Rightarrow> [] | Some f \<Rightarrow> f)"

subsection \<open>State and observable effects\<close>

text \<open>
  The members of the class keep their names without the trailing underscore, which a
  constant cannot carry: \<open>updateRequested\<close> is \<open>updateRequested_\<close>, and
  \<open>update_scan\<close> below is the private method \<open>update_\<close>.  Everything the watcher
  does to the outside world is recorded, in order, in the \<open>effects\<close> of its state: log
  lines, the system calls it makes with their results, and the rebuild requests it sends
  to the update thread.
\<close>

datatype wevent =
    Log string          \<comment> \<open>a line written to \<open>MT::cerr()\<close>\<close>
  | Perror string       \<comment> \<open>\<open>perror (s)\<close>\<close>
  | ListFiles           \<comment> \<open>\<open>storage_.listFiles()\<close>\<close>
  | AddWatch fname int  \<comment> \<open>\<open>inotify_add_watch (fd, file, IN_MODIFY)\<close> and its result\<close>
  | Poll int            \<comment> \<open>\<open>poll (&fd, 1, 1000)\<close> and its result\<close>
  | Read int            \<comment> \<open>\<open>read (fd, buf, BUF_LEN)\<close> and its result\<close>
  | Index               \<comment> \<open>\<open>updateThread_.index()\<close>\<close>

record inotify =
  updateRequested :: bool
  fd_inotify :: int
  inotifyMap :: watch_table
  effects :: "wevent list"

definition emit :: "wevent \<Rightarrow> inotify \<Rightarrow> inotify" where
  "emit x s = s\<lparr>effects := effects s @ [x]\<rparr>"

text \<open>
  What the operating system, the storage and the other threads contribute to one
  iteration of the watcher's loop.  \<open>add_watch i f\<close> is the result of
  \<open>inotify_add_watch\<close> when it is called for the file \<open>f\<close> found at position \<open>i\<close> of
  the list; \<open>buf\<close> is the memory at the address of the read buffer once \<open>read\<close> has
  returned (the bytes from \<open>BUF_LEN\<close> on are whatever lies behind the buffer).
\<close>

record iter_env =
  interrupted :: bool        \<comment> \<open>an interruption of this thread has been requested\<close>
  rescan_requested :: bool   \<comment> \<open>another thread has called \<open>Inotify::update\<close>\<close>
  listFiles :: "fname list"  \<comment> \<open>the result of \<open>storage_.listFiles()\<close>\<close>
  add_watch :: "nat \<Rightarrow> fname \<Rightarrow> int"
  poll_result :: int
  revents_POLLIN :: bool     \<comment> \<open>\<open>fd.revents & POLLIN\<close> after the poll\<close>
  read_result :: int
  buf :: "nat \<Rightarrow> 8 word"

subsection \<open>Construction\<close>

definition new_Inotify :: "int \<Rightarrow> inotify" where
  "new_Inotify fd =
     \<lparr>updateRequested = True, fd_inotify = fd, inotifyMap = empty_table, effects = []\<rparr>"

text \<open>The constructor; its argument is the result of \<open>inotify_init ()\<close>.\<close>

definition Inotify :: "int \<Rightarrow> exn + inotify" where
  "Inotify fd = (if fd = - 1 then Inl (RuntimeError ''inotify'') else Inr (new_Inotify fd))"

subsection \<open>\<open>Inotify::update\<close> and \<open>Inotify::update_\<close>\<close>

definition update :: "inotify \<Rightarrow> inotify" where
  "update s = s\<lparr>updateRequested := True\<rparr>"

text \<open>The body of the loop over the list, for the file \<open>f\<close> at position \<open>i\<close>.\<close>

definition watch_file :: "(nat \<Rightarrow> fname \<Rightarrow> int) \<Rightarrow> nat \<Rightarrow> fname \<Rightarrow> inotify \<Rightarrow> inotify" where
  "watch_file aw i f s =
     (if contains (inotifyMap s) f then s
      else
        let s1 = emit (Log (''Watching '' @ f)) s;
            wd = aw i f;
            s2 = emit (AddWatch f wd) s1;
            s3 = (if wd = - 1 then emit (Perror ''inotify_add_watch'') s2 else s2)
        in s3\<lparr>inotifyMap := add f wd (inotifyMap s3)\<rparr>)"

fun watch_files :: "(nat \<Rightarrow> fname \<Rightarrow> int) \<Rightarrow> nat \<Rightarrow> fname list \<Rightarrow> inotify \<Rightarrow> inotify" where
  "watch_files aw i [] s = s"
| "watch_files aw i (f # fs) s = watch_files aw (Suc i) fs (watch_file aw i f s)"

definition update_scan :: "iter_env \<Rightarrow> inotify \<Rightarrow> inotify" where
  "update_scan e s =
     watch_files (add_watch e) 0 (listFiles e)
       (emit ListFiles (emit (Log ''Updating watchlist...'') s))"

subsection \<open>Decoding the event stream\<close>

text \<open>
  \<open>struct inotify_event\<close> is \<open>{int wd; uint32_t mask; uint32_t cookie; uint32_t len;
  char name[];}\<close>: a header of 16 bytes followed by \<open>len\<close> bytes.  The fields are read
  in the byte order of the host, little-endian on the platforms with inotify that the
  daemon is built for.
\<close>

definition sizeof_inotify_event :: nat where
  "sizeof_inotify_event = 16"

definition le32 :: "(nat \<Rightarrow> 8 word) \<Rightarrow> nat \<Rightarrow> 32 word" where
  "le32 b i =
     ucast (b i) OR push_bit 8 (ucast (b (i + 1))) OR
     push_bit 16 (ucast (b (i + 2))) OR push_bit 24 (ucast (b (i + 3)))"

definition event_wd :: "(nat \<Rightarrow> 8 word) \<Rightarrow> nat \<Rightarrow> int" where
  "event_wd b i = sint (le32 b i)"

definition event_len :: "(nat \<Rightarrow> 8 word) \<Rightarrow> nat \<Rightarrow> nat" where
  "event_len b i = unat (le32 b (i + 12))"

text \<open>
  The \<open>while (i < len)\<close> loop.  \<open>i\<close> grows by at least the size of the header in every
  round, so the loop ends whatever the buffer holds.
\<close>

function decode_events :: "(nat \<Rightarrow> 8 word) \<Rightarrow> nat \<Rightarrow> nat \<Rightarrow> inotify \<Rightarrow> inotify" where
  "decode_events b len i s =
     (if i < len
      then decode_events b len (i + (sizeof_inotify_event + event_len b i))
             (emit (Log (''Detected modification of '' @ fileName (inotifyMap s) (event_wd b i))) s)
      else s)"
  by pat_completeness auto
termination
  by (relation "measure (\<lambda>(b, len, i, s). len - i)") (auto simp: sizeof_inotify_event_def)

declare decode_events.simps [simp del]

subsection \<open>The loop of \<open>Inotify::operator()\<close>\<close>

text \<open>The branch taken when the poll reports \<open>POLLIN\<close>.\<close>

definition on_pollin :: "iter_env \<Rightarrow> inotify \<Rightarrow> inotify" where
  "on_pollin e s =
     (let s1 = emit (Read (read_result e)) s
      in if read_result e < 1 then emit (Perror ''read'') s1
         else emit Index (decode_events (buf e) (nat (read_result e)) 0 s1))"

text \<open>
  One round of the \<open>for ( ; ; )\<close> loop.  The interruption point throws when an
  interruption of the thread is pending; the exception leaves \<open>operator()\<close> and ends
  the thread.
\<close>

definition iteration :: "iter_env \<Rightarrow> inotify \<Rightarrow> exn option \<times> inotify" where
  "iteration e s =
     (if interrupted e then (Some ThreadInterrupted, s)
      else
        let s0 = (if rescan_requested e then update s else s);
            s1 = (if updateRequested s0 = True
                  then (update_scan e s0)\<lparr>updateRequested := False\<rparr> else s0);
            s2 = emit (Poll (poll_result e)) s1
        in (None,
            if poll_result e = - 1 then emit (Perror ''poll'') s2
            else if revents_POLLIN e then on_pollin e s2
            else s2))"

text \<open>The loop, on the environments of its first rounds.\<close>

fun Inotify_run :: "iter_env list \<Rightarrow> inotify \<Rightarrow> outcome \<times> inotify" where
  "Inotify_run [] s = (Running, s)"
| "Inotify_run (e # es) s =
     (case iteration e s of
        (Some x, s') \<Rightarrow> (Thrown x, s')
      | (None, s') \<Rightarrow> Inotify_run es s')"

section \<open>Commands and their dispatch: \<open>main.cxx\<close>\<close>

subsection \<open>Requests\<close>

text \<open>
  A request names a command and gives values to some of its options.  The values are
  JSON values; \<open>JOther\<close> stands for every JSON value that is neither a boolean, an
  integer nor a string.
\<close>

datatype json = JBool bool | JInt int | JString string | JOther

record request =
  commandName :: string
  optionValues :: "(string \<times> json) list"

subsection \<open>The argument structures of the commands\<close>

text \<open>
  The structures \<open>Load::Args\<close>, \<open>Config::Args\<close>, \<open>FindDefinition::Args\<close>,
  \<open>Grep::Args\<close> and \<open>Complete::Args\<close> are declared in headers that are not among the
  sources.  Their members are the ones \<open>main.cxx\<close> binds options to, with the types that
  the defaults assigned there and the option descriptions give them.
\<close>

record load_args =
  load_fileName :: string

record config_args =
  config_get :: bool
  config_name :: string
  config_value :: string

record find_args =
  find_fileName :: string
  find_offset :: int
  find_mostSpecific :: bool
  find_diagnostics :: bool
  find_fromIndex :: bool

record grep_args =
  grep_usr :: string

record complete_args =
  complete_fileName :: string
  complete_line :: int
  complete_column :: int

subsection \<open>Defaults\<close>

text \<open>The method \<open>defaults\<close> of each command; \<open>index\<close> and \<open>exit\<close> define none.\<close>

definition LoadCommand_defaults :: "load_args \<Rightarrow> load_args" where
  "LoadCommand_defaults a = a\<lparr>load_fileName := ''compile_commands.json''\<rparr>"

definition ConfigCommand_defaults :: "config_args \<Rightarrow> config_args" where
  "ConfigCommand_defaults a = a\<lparr>config_get := False\<rparr>"

definition FindCommand_defaults :: "find_args \<Rightarrow> find_args" where
  "FindCommand_defaults a =
     a\<lparr>find_fileName := [], find_offset := 0, find_mostSpecific := False,
       find_diagnostics := True, find_fromIndex := True\<rparr>"

definition GrepCommand_defaults :: "grep_args \<Rightarrow> grep_args" where
  "GrepCommand_defaults a = a\<lparr>grep_usr := ''c:@F@main''\<rparr>"

definition CompleteCommand_defaults :: "complete_args \<Rightarrow> complete_args" where
  "CompleteCommand_defaults a =
     a\<lparr>complete_fileName := [], complete_line := 0, complete_column := 0\<rparr>"

subsection \<open>Declared options\<close>

text \<open>
  \<open>add (key (name, cell))\<close> declares an option and binds it to a member of the argument
  structure.  A declaration is modelled as the name with the function that decodes a
  JSON value into that member, \<open>None\<close> when the value has not the type of the member.
\<close>

type_synonym 'a option_decl = "string \<times> (json \<Rightarrow> 'a \<Rightarrow> 'a option)"

definition bool_cell :: "(bool \<Rightarrow> 'a \<Rightarrow> 'a) \<Rightarrow> json \<Rightarrow> 'a \<Rightarrow> 'a option" where
  "bool_cell put v a = (case v of JBool b \<Rightarrow> Some (put b a) | _ \<Rightarrow> None)"

definition int_cell :: "(int \<Rightarrow> 'a \<Rightarrow> 'a) \<Rightarrow> json \<Rightarrow> 'a \<Rightarrow> 'a option" where
  "int_cell put v a = (case v of JInt n \<Rightarrow> Some (put n a) | _ \<Rightarrow> None)"

definition string_cell :: "(string \<Rightarrow> 'a \<Rightarrow> 'a) \<Rightarrow> json \<Rightarrow> 'a \<Rightarrow> 'a option" where
  "string_cell put v a = (case v of JString x \<Rightarrow> Some (put x a) | _ \<Rightarrow> None)"

definition LoadCommand_options :: "load_args option_decl list" where
  "LoadCommand_options = [(''database'', string_cell (\<lambda>x a. a\<lparr>load_fileName := x\<rparr>))]"

definition ConfigCommand_options :: "config_args option_decl list" where
  "ConfigCommand_options =
     [(''get'', bool_cell (\<lambda>x a. a\<lparr>config_get := x\<rparr>)),
      (''option'', string_cell (\<lambda>x a. a\<lparr>config_name := x\<rparr>)),
      (''value'', string_cell (\<lambda>x a. a\<lparr>config_value := x\<rparr>))]"

definition FindCommand_options :: "find_args option_decl list" where
  "FindCommand_options =
     [(''file'', string_cell (\<lambda>x a. a\<lparr>find_fileName := x\<rparr>)),
      (''offset'', int_cell (\<lambda>x a. a\<lparr>find_offset := x\<rparr>)),
      (''mostSpecific'', bool_cell (\<lambda>x a. a\<lparr>find_mostSpecific := x\<rparr>)),
      (''diagnostics'', bool_cell (\<lambda>x a. a\<lparr>find_diagnostics := x\<rparr>)),
      (''fromIndex'', bool_cell (\<lambda>x a. a\<lparr>find_fromIndex := x\<rparr>))]"

definition GrepCommand_options :: "grep_args option_decl list" where
  "GrepCommand_options = [(''usr'', string_cell (\<lambda>x a. a\<lparr>grep_usr := x\<rparr>))]"

definition CompleteCommand_options :: "complete_args option_decl list" where
  "CompleteCommand_options =
     [(''file'', string_cell (\<lambda>x a. a\<lparr>complete_fileName := x\<rparr>)),
      (''line'', int_cell (\<lambda>x a. a\<lparr>complete_line := x\<rparr>)),
      (''column'', int_cell (\<lambda>x a. a\<lparr>complete_column := x\<rparr>))]"

text \<open>The commands that \<open>main\<close> registers, under their names, in the order of the calls.\<close>

datatype command =
    LoadCommand | ConfigCommand | IndexCommand | FindCommand | GrepCommand
  | CompleteCommand | ExitCommand

definition registry :: "(string \<times> command) list" where
  "registry =
     [(''load'', LoadCommand), (''config'', ConfigCommand), (''index'', IndexCommand),
      (''find'', FindCommand), (''grep'', GrepCommand), (''complete'', CompleteCommand),
      (''exit'', ExitCommand)]"

text \<open>
  The argument structures that the registered commands own.  Each constructor calls
  \<open>defaults\<close> on a freshly constructed structure (empty strings; the other members
  are the ones the defaults set, but for \<open>get\<close> of \<open>config\<close>).
\<close>

record parser =
  LoadCommand_args :: load_args
  ConfigCommand_args :: config_args
  FindCommand_args :: find_args
  GrepCommand_args :: grep_args
  CompleteCommand_args :: complete_args

definition new_parser :: parser where
  "new_parser =
     \<lparr>LoadCommand_args = LoadCommand_defaults \<lparr>load_fileName = []\<rparr>,
      ConfigCommand_args =
        ConfigCommand_defaults \<lparr>config_get = False, config_name = [], config_value = []\<rparr>,
      FindCommand_args =
        FindCommand_defaults
          \<lparr>find_fileName = [], find_offset = 0, find_mostSpecific = False,
           find_diagnostics = False, find_fromIndex = False\<rparr>,
      GrepCommand_args = GrepCommand_defaults \<lparr>grep_usr = []\<rparr>,
      CompleteCommand_args =
        CompleteCommand_defaults
          \<lparr>complete_fileName = [], complete_line = 0, complete_column = 0\<rparr>\<rparr>"

subsection \<open>The world of the main thread\<close>

text \<open>
  What the main thread does is recorded, in order, in the \<open>trace\<close> of the world; the
  world also holds the files of the working directory and the registered commands.
\<close>

datatype stream =
    Stdio    \<comment> \<open>\<open>std::cin\<close> and \<open>std::cout\<close>\<close>
  | Socket   \<comment> \<open>the accepted connection\<close>

datatype thread = UpdateThread | WatchThread

datatype dispatch_error = UnknownCommand string | UnknownOption string | TypeMismatch string

datatype executor_call =
    RunLoad load_args | RunConfig config_args | RunFind find_args | RunGrep grep_args
  | RunComplete complete_args

datatype event =
    PrintUsage                           \<comment> \<open>\<open>std::cerr << options.usage()\<close>\<close>
  | Cerr string                          \<comment> \<open>a line on the standard error\<close>
  | PError string                        \<comment> \<open>\<open>perror (s)\<close>\<close>
  | Start thread                         \<comment> \<open>a \<open>boost::thread\<close> constructed on the object\<close>
  | Interrupt thread
  | Join thread
  | WritePid                             \<comment> \<open>the pid file written\<close>
  | Bind                                 \<comment> \<open>the acceptor bound to the socket path\<close>
  | Unlink string
  | Accept bool                          \<comment> \<open>\<open>acceptor.accept\<close>; \<open>True\<close> when \<open>!err\<close>\<close>
  | ReadRequest stream request           \<comment> \<open>the request read from the stream\<close>
  | Echo request                         \<comment> \<open>the request echoed, in verbose mode\<close>
  | ErrorResponse stream dispatch_error
  | Cout stream string                   \<comment> \<open>text written by a command to its \<open>cout\<close>\<close>
  | Executor stream executor_call        \<comment> \<open>external query logic run on the arguments\<close>
  | CallIndex                            \<comment> \<open>\<open>update_.index()\<close>\<close>
  | CallWait                             \<comment> \<open>\<open>update_.wait()\<close> has returned\<close>
  | RebuildStarted                       \<comment> \<open>the update thread has begun a rebuild\<close>
  | RebuildCompleted                     \<comment> \<open>the update thread has finished a rebuild\<close>

record world =
  files :: "string set"
  commands :: parser
  trace :: "event list"

definition perform :: "event \<Rightarrow> world \<Rightarrow> world" where
  "perform x w = w\<lparr>trace := trace w @ [x]\<rparr>"

fun perform_all :: "event list \<Rightarrow> world \<Rightarrow> world" where
  "perform_all [] w = w"
| "perform_all (x # xs) w = perform_all xs (perform x w)"

subsection \<open>Execution hooks\<close>

text \<open>
  The hooks \<open>run\<close> of \<open>load\<close>, \<open>config\<close>, \<open>find\<close>, \<open>grep\<close> and \<open>complete\<close> hand
  the argument structure to query logic that lies outside the sources.  The call is
  recorded with the arguments it receives; \<open>fails\<close> is the exception that this
  logic throws, if it throws one.
\<close>

definition executor :: "stream \<Rightarrow> executor_call \<Rightarrow> exn option \<Rightarrow> world \<Rightarrow> exn option \<times> world" where
  "executor io c fails w = (fails, perform (Executor io c) w)"

text \<open>
  \<open>IndexCommand::run\<close>, as the sequence of its four statements.  \<open>CallWait\<close> is
  recorded when \<open>update_.wait()\<close> returns.
\<close>

definition IndexCommand_run :: "stream \<Rightarrow> event list" where
  "IndexCommand_run io =
     [CallIndex, Cout io ''Waiting for the index to be rebuilt...'', CallWait,
      Cout io ''Done.'']"

definition ExitCommand_run :: "stream \<Rightarrow> world \<Rightarrow> exn option \<times> world" where
  "ExitCommand_run io w =
     (Some (RuntimeError ''shutdown requested''), perform (Cout io ''Exiting...'') w)"

text \<open>
  The hook of a command.  In this sequential view of the main thread the wait of
  \<open>index\<close> returns; the section on the update engine looks at it together with the
  update thread.
\<close>

fun run :: "command \<Rightarrow> stream \<Rightarrow> exn option \<Rightarrow> world \<Rightarrow> exn option \<times> world" where
  "run LoadCommand io fails w = executor io (RunLoad (LoadCommand_args (commands w))) fails w"
| "run ConfigCommand io fails w =
     executor io (RunConfig (ConfigCommand_args (commands w))) fails w"
| "run IndexCommand io fails w = (None, perform_all (IndexCommand_run io) w)"
| "run FindCommand io fails w = executor io (RunFind (FindCommand_args (commands w))) fails w"
| "run GrepCommand io fails w = executor io (RunGrep (GrepCommand_args (commands w))) fails w"
| "run CompleteCommand io fails w =
     executor io (RunComplete (CompleteCommand_args (commands w))) fails w"
| "run ExitCommand io fails w = ExitCommand_run io w"

subsection \<open>Dispatch\<close>

text \<open>
  Modelled from the spec: the dispatch framework \<open>Request::Parser\<close> and
  \<open>Request::CommandParser\<close> (\<open>request/request.hxx\<close>), which is not among the sources.
  Section 4.3 of the spec gives the binding algorithm: look the command up
  (\<open>UnknownCommand\<close> if absent); invoke its \<open>defaults\<close>; for each pair supplied find
  the declared option (\<open>UnknownOption\<close> if absent) and decode the value into the bound
  member (\<open>TypeMismatch\<close> on a value of another type); options absent from the request
  keep their default; then invoke the execution hook.  The three errors produce an error
  response and the server goes on (section 7); an exception raised by the hook
  propagates out of the dispatch.
\<close>

fun bind_values ::
  "'a option_decl list \<Rightarrow> (string \<times> json) list \<Rightarrow> 'a \<Rightarrow> dispatch_error option \<times> 'a" where
  "bind_values opts [] a = (None, a)"
| "bind_values opts ((k, v) # kvs) a =
     (case map_of opts k of
        None \<Rightarrow> (Some (UnknownOption k), a)
      | Some cell \<Rightarrow>
          (case cell v a of
             None \<Rightarrow> (Some (TypeMismatch k), a)
           | Some a' \<Rightarrow> bind_values opts kvs a'))"

text \<open>Reset to the defaults, then bind the values of the request.\<close>

fun bind_command ::
  "command \<Rightarrow> (string \<times> json) list \<Rightarrow> parser \<Rightarrow> dispatch_error option \<times> parser" where
  "bind_command LoadCommand kvs p =
     (case bind_values LoadCommand_options kvs (LoadCommand_defaults (LoadCommand_args p)) of
        (err, a) \<Rightarrow> (err, p\<lparr>LoadCommand_args := a\<rparr>))"
| "bind_command ConfigCommand kvs p =
     (case bind_values ConfigCommand_options kvs (ConfigCommand_defaults (ConfigCommand_args p)) of
        (err, a) \<Rightarrow> (err, p\<lparr>ConfigCommand_args := a\<rparr>))"
| "bind_command FindCommand kvs p =
     (case bind_values FindCommand_options kvs (FindCommand_defaults (FindCommand_args p)) of
        (err, a) \<Rightarrow> (err, p\<lparr>FindCommand_args := a\<rparr>))"
| "bind_command GrepCommand kvs p =
     (case bind_values GrepCommand_options kvs (GrepCommand_defaults (GrepCommand_args p)) of
        (err, a) \<Rightarrow> (err, p\<lparr>GrepCommand_args := a\<rparr>))"
| "bind_command CompleteCommand kvs p =
     (case bind_values CompleteCommand_options kvs
        (CompleteCommand_defaults (CompleteCommand_args p)) of
        (err, a) \<Rightarrow> (err, p\<lparr>CompleteCommand_args := a\<rparr>))"
| "bind_command IndexCommand kvs p = (fst (bind_values [] kvs ()), p)"
| "bind_command ExitCommand kvs p = (fst (bind_values [] kvs ()), p)"

text \<open>
  \<open>parseJson (in, out, verbose)\<close>: one request read from the stream, dispatched, one
  response written.  \<open>r\<close> is the request that arrives on the stream.
\<close>

definition parseJson ::
  "stream \<Rightarrow> bool \<Rightarrow> request \<Rightarrow> exn option \<Rightarrow> world \<Rightarrow> exn option \<times> world" where
  "parseJson io verbose r fails w =
     (let w0 = perform (ReadRequest io r) w;
          w1 = (if verbose then perform (Echo r) w0 else w0)
      in case map_of registry (commandName r) of
           None \<Rightarrow> (None, perform (ErrorResponse io (UnknownCommand (commandName r))) w1)
         | Some c \<Rightarrow>
             (case bind_command c (optionValues r) (commands w1) of
                (Some err, p) \<Rightarrow> (None, perform (ErrorResponse io err) (w1\<lparr>commands := p\<rparr>))
              | (None, p) \<Rightarrow> run c io fails (w1\<lparr>commands := p\<rparr>)))"

section \<open>The server: \<open>class Serve\<close> and \<open>main\<close>\<close>

definition pidPath :: string where
  "pidPath = ''.ct.pid''"

definition socketPath :: string where
  "socketPath = ''.ct.sock''"

text \<open>The constructor writes the pid file.\<close>

definition Serve :: "world \<Rightarrow> world" where
  "Serve w = perform WritePid (w\<lparr>files := insert pidPath (files w)\<rparr>)"

text \<open>The destructor unlinks the socket path and the pid file.\<close>

definition unlink :: "string \<Rightarrow> world \<Rightarrow> world" where
  "unlink path w = perform (Unlink path) (w\<lparr>files := files w - {path}\<rparr>)"

definition Serve_destructor :: "world \<Rightarrow> world" where
  "Serve_destructor w = unlink pidPath (unlink socketPath (perform (Cerr ''Server exiting...'') w))"

text \<open>
  What arrives at one call of \<open>acceptor.accept\<close>: an error, or a connection that
  carries a request (with the exception that the external logic serving it throws, if
  any).
\<close>

datatype conn = AcceptError | Accepted request "exn option"

text \<open>The \<open>for (;;)\<close> loop of \<open>Serve::operator()\<close>.\<close>

fun accept_loop :: "conn list \<Rightarrow> world \<Rightarrow> outcome \<times> world" where
  "accept_loop [] w = (Running, w)"
| "accept_loop (AcceptError # cs) w = accept_loop cs (perform (Accept False) w)"
| "accept_loop (Accepted r fails # cs) w =
     (case parseJson Socket True r fails (perform (Accept True) w) of
        (Some x, w') \<Rightarrow> (Thrown x, w')
      | (None, w') \<Rightarrow> accept_loop cs w')"

text \<open>
  \<open>Serve::operator()\<close>.  The constructor of the acceptor opens, binds and listens; it
  throws when that fails, and creates the socket file otherwise.
\<close>

definition Serve_operator :: "bool \<Rightarrow> conn list \<Rightarrow> world \<Rightarrow> outcome \<times> world" where
  "Serve_operator acceptor_ok cs w =
     (let w1 = perform (Cerr ''Server starting with pid: '') w
      in if acceptor_ok
         then accept_loop cs (perform Bind (w1\<lparr>files := insert socketPath (files w1)\<rparr>))
         else (Thrown SystemError, w1))"

text \<open>
  The block \<open>{ Serve serve (p); serve (); }\<close> of \<open>main\<close>: when an exception leaves
  \<open>serve ()\<close> the destructor of \<open>serve\<close> runs while the stack is unwound to the
  handler.  The exception is returned for the handler.
\<close>

definition Serve_block :: "bool \<Rightarrow> conn list \<Rightarrow> world \<Rightarrow> outcome \<times> world" where
  "Serve_block acceptor_ok cs w =
     (case Serve_operator acceptor_ok cs (Serve w) of
        (Running, w') \<Rightarrow> (Running, w')
      | (Thrown x, w') \<Rightarrow> (Thrown x, Serve_destructor w'))"

subsection \<open>\<open>main\<close>\<close>

record main_env =
  getopt_ok :: bool            \<comment> \<open>\<open>options.get()\<close> does not throw\<close>
  help_count :: nat            \<comment> \<open>\<open>options.getCount ("help")\<close>\<close>
  stdin_count :: nat           \<comment> \<open>\<open>options.getCount ("stdin")\<close>\<close>
  HAVE_INOTIFY :: bool         \<comment> \<open>whether \<open>config.h\<close> defines the macro\<close>
  inotify_init :: int          \<comment> \<open>the result of \<open>inotify_init ()\<close>\<close>
  stdin_request :: request     \<comment> \<open>the request on the standard input\<close>
  stdin_fails :: "exn option"  \<comment> \<open>what the external logic serving it throws\<close>
  acceptor_ok :: bool
  conns :: "conn list"

datatype status =
    Exit int    \<comment> \<open>\<open>main\<close> has returned the value\<close>
  | Terminate   \<comment> \<open>an exception has left \<open>main\<close>\<close>
  | Serving     \<comment> \<open>\<open>main\<close> is in the accept loop\<close>

definition EXIT_SUCCESS :: int where
  "EXIT_SUCCESS = 0"

definition EXIT_FAILURE :: int where
  "EXIT_FAILURE = 1"

text \<open>The two loops over \<open>threads\<close> at the end of the outer \<open>try\<close> block.\<close>

definition stop_threads :: "main_env \<Rightarrow> world \<Rightarrow> world" where
  "stop_threads e w =
     (let threads = UpdateThread # (if HAVE_INOTIFY e then [WatchThread] else [])
      in perform_all (map Interrupt threads @ map Join threads) w)"

text \<open>
  The block under \<open>#if defined(HAVE_INOTIFY)\<close>: the watcher is constructed, which
  reports the error and throws when \<open>inotify_init\<close> fails, and its thread is started.
\<close>

definition start_watch :: "main_env \<Rightarrow> world \<Rightarrow> exn option \<times> world" where
  "start_watch e w =
     (if HAVE_INOTIFY e
      then (case Inotify (inotify_init e) of
              Inl x \<Rightarrow> (Some x, perform (PError ''inotify_init'') w)
            | Inr watch \<Rightarrow> (None, perform (Start WatchThread) w))
      else (None, w))"

text \<open>
  The outer \<open>try\<close> block.  \<open>None\<close> is its normal end, \<open>Some Running\<close> the server still
  in its loop, \<open>Some (Thrown x)\<close> the exception \<open>x\<close> leaving the block.  The handler
  \<open>catch (...) {}\<close> around the server swallows what ends it.
\<close>

definition main_try :: "main_env \<Rightarrow> world \<Rightarrow> outcome option \<times> world" where
  "main_try e w =
     (case start_watch e (perform (Start UpdateThread) w) of
        (Some x, w1) \<Rightarrow> (Some (Thrown x), w1)
      | (None, w1) \<Rightarrow>
          let w2 = w1\<lparr>commands := new_parser\<rparr>
          in if stdin_count e > 0
             then (case parseJson Stdio False (stdin_request e) (stdin_fails e) w2 of
                     (Some x, w') \<Rightarrow> (Some (Thrown x), w')
                   | (None, w') \<Rightarrow> (None, stop_threads e w'))
             else (case Serve_block (acceptor_ok e) (conns e) w2 of
                     (Running, w') \<Rightarrow> (Some Running, w')
                   | (Thrown x, w') \<Rightarrow> (None, stop_threads e w')))"

definition main :: "main_env \<Rightarrow> world \<Rightarrow> status \<times> world" where
  "main e w =
     (if \<not> getopt_ok e then (Exit 1, perform PrintUsage w)
      else if help_count e > 0 then (Exit 0, perform PrintUsage w)
      else
        (case main_try e w of
           (None, w') \<Rightarrow> (Exit EXIT_SUCCESS, w')
         | (Some Running, w') \<Rightarrow> (Serving, w')
         | (Some (Thrown x), w') \<Rightarrow>
             if std_exception x
             then (Exit EXIT_FAILURE, perform (Cerr (''Caught exception: '' @ what x)) w')
             else (Terminate, w')))"

section \<open>The \<open>index\<close> command and the update engine\<close>

subsection \<open>The update engine\<close>

text \<open>
  Modelled from the spec: the class \<open>Update::Thread\<close> (\<open>clangTags/update/thread.cxx\<close>),
  which is not among the sources; \<open>index\<close> is the spec's \<open>RequestRebuild\<close> and
  \<open>wait\<close> its \<open>WaitForRebuild\<close>.  Sections 3 and 4.1 of the spec give the state and
  its algorithm: \<open>RequestRebuild\<close> sets \<open>requestedGeneration\<close> to \<open>generation + 1\<close>
  and does nothing when it is already that large; \<open>WaitForRebuild\<close> captures the
  target \<open>max (generation + 1) requestedGeneration\<close> when it is called, forces a
  rebuild when none is pending, and blocks until \<open>generation\<close> has reached the target;
  the engine's own loop turns to \<open>Rebuilding\<close> when a rebuild is pending and, when the
  rebuild completes, increments \<open>generation\<close> and clears the pending state.
\<close>

datatype phase = Idle | Requested | Rebuilding

record rebuild_state =
  generation :: nat
  requestedGeneration :: nat
  phase :: phase

definition pending :: "rebuild_state \<Rightarrow> bool" where
  "pending r = (generation r < requestedGeneration r)"

definition request_generation :: "nat \<Rightarrow> rebuild_state \<Rightarrow> rebuild_state" where
  "request_generation g r =
     (if g \<le> requestedGeneration r then r
      else r\<lparr>requestedGeneration := g,
             phase := (if phase r = Idle then Requested else phase r)\<rparr>)"

definition RequestRebuild :: "rebuild_state \<Rightarrow> rebuild_state" where
  "RequestRebuild r = request_generation (generation r + 1) r"

definition wait_target :: "rebuild_state \<Rightarrow> nat" where
  "wait_target r = max (generation r + 1) (requestedGeneration r)"

text \<open>One round of the engine's loop \<open>Run\<close>.\<close>

definition Run_step :: "rebuild_state \<Rightarrow> rebuild_state \<times> event list" where
  "Run_step r =
     (if phase r = Rebuilding
      then (r\<lparr>generation := generation r + 1,
              phase := (if generation r + 1 < requestedGeneration r then Requested else Idle)\<rparr>,
            [RebuildCompleted])
      else if pending r then (r\<lparr>phase := Rebuilding\<rparr>, [RebuildStarted])
      else (r, []))"

subsection \<open>The command beside the engine\<close>

text \<open>
  The main thread executes the statements of \<open>IndexCommand::run\<close> one by one while
  the update thread runs its loop.  \<open>todo\<close> holds the statements still to be executed,
  \<open>waiting\<close> the target captured by a call of \<open>wait\<close> that has not returned yet, and
  \<open>history\<close> what the two threads have done, in order.
\<close>

record system =
  todo :: "event list"
  waiting :: "nat option"
  engine :: rebuild_state
  history :: "event list"

definition start_index :: "stream \<Rightarrow> rebuild_state \<Rightarrow> system" where
  "start_index io r = \<lparr>todo = IndexCommand_run io, waiting = None, engine = r, history = []\<rparr>"

text \<open>
  A step of the main thread.  At \<open>CallWait\<close> the first step enters \<open>wait\<close>; the
  following ones leave the thread blocked until the target is reached.
\<close>

definition command_step :: "system \<Rightarrow> system" where
  "command_step s =
     (case todo s of
        [] \<Rightarrow> s
      | x # rest \<Rightarrow>
          if x = CallIndex
          then s\<lparr>todo := rest, engine := RequestRebuild (engine s), history := history s @ [x]\<rparr>
          else if x = CallWait
          then (case waiting s of
                  None \<Rightarrow>
                    s\<lparr>waiting := Some (wait_target (engine s)),
                      engine := request_generation (wait_target (engine s)) (engine s)\<rparr>
                | Some t \<Rightarrow>
                    if t \<le> generation (engine s)
                    then s\<lparr>todo := rest, waiting := None, history := history s @ [x]\<rparr>
                    else s)
          else s\<lparr>todo := rest, history := history s @ [x]\<rparr>)"

definition engine_step :: "system \<Rightarrow> system" where
  "engine_step s =
     (case Run_step (engine s) of
        (r, xs) \<Rightarrow> s\<lparr>engine := r, history := history s @ xs\<rparr>)"

datatype actor = MainThread | EngineThread

fun interleave :: "actor list \<Rightarrow> system \<Rightarrow> system" where
  "interleave [] s = s"
| "interleave (MainThread # sch) s = interleave sch (command_step s)"
| "interleave (EngineThread # sch) s = interleave sch (engine_step s)"

section \<open>Observations\<close>

subsection \<open>On the effects of the watcher\<close>

text \<open>The number of rebuild requests, and the files handed to \<open>inotify_add_watch\<close>.\<close>

definition index_calls :: "wevent list \<Rightarrow> nat" where
  "index_calls xs = length (filter (\<lambda>x. x = Index) xs)"

fun watch_calls :: "wevent list \<Rightarrow> fname list" where
  "watch_calls [] = []"
| "watch_calls (AddWatch f wd # xs) = f # watch_calls xs"
| "watch_calls (x # xs) = watch_calls xs"

fun is_Poll :: "wevent \<Rightarrow> bool" where
  "is_Poll (Poll r) = True"
| "is_Poll x = False"

text \<open>
  The invariant of the watcher's state: no file has been handed to
  \<open>inotify_add_watch\<close> twice, every such file is in the table, and the reverse lookup
  only holds handles that the table records for the file.
\<close>

definition table_inv :: "inotify \<Rightarrow> bool" where
  "table_inv s \<longleftrightarrow>
     distinct (watch_calls (effects s)) \<and>
     set (watch_calls (effects s)) \<subseteq> dom (wd_of (inotifyMap s)) \<and>
     (\<forall>wd f. file_of (inotifyMap s) wd = Some f \<longrightarrow> wd_of (inotifyMap s) f = Some wd)"

subsection \<open>On the trace of the main thread\<close>

text \<open>
  The events by which the server shows: the pid file, the socket, the accepted
  connections and the removal of files.
\<close>

fun is_server_event :: "event \<Rightarrow> bool" where
  "is_server_event WritePid = True"
| "is_server_event Bind = True"
| "is_server_event (Unlink p) = True"
| "is_server_event (Accept b) = True"
| "is_server_event x = False"

fun requests_read :: "event list \<Rightarrow> (stream \<times> request) list" where
  "requests_read [] = []"
| "requests_read (ReadRequest io r # xs) = (io, r) # requests_read xs"
| "requests_read (x # xs) = requests_read xs"

text \<open>The stream a response event is written to.\<close>

fun written_to :: "event \<Rightarrow> stream option" where
  "written_to (Cout io t) = Some io"
| "written_to (ErrorResponse io err) = Some io"
| "written_to (Executor io c) = Some io"
| "written_to x = None"

text \<open>The world when the program starts in a working directory that holds \<open>fs\<close>.\<close>

definition initial_world :: "string set \<Rightarrow> world" where
  "initial_world fs = \<lparr>files = fs, commands = new_parser, trace = []\<rparr>"

subsection \<open>On the \<open>index\<close> command beside the engine\<close>



section \<open>Scenarios\<close>

text \<open>Concrete inputs on which the theorems below are instantiated.\<close>

subsection \<open>For the watcher\<close>

text \<open>
  A read buffer with two event records, for the handles 1 and 2, each a bare header
  (\<open>len = 0\<close>).
\<close>

definition two_events :: "nat \<Rightarrow> 8 word" where
  "two_events i = (if i = 0 then 1 else if i = 16 then 2 else 0)"

text \<open>
  The storage lists \<open>a.cpp\<close>, \<open>b.cpp\<close> and \<open>a.cpp\<close> again, registration succeeds
  with the handles 1, 2, ..., and the poll reports the two events above.
\<close>

definition env_two_events :: iter_env where
  "env_two_events =
     \<lparr>interrupted = False, rescan_requested = False,
      listFiles = [''a.cpp'', ''b.cpp'', ''a.cpp''], add_watch = (\<lambda>i f. int i + 1),
      poll_result = 1, revents_POLLIN = True, read_result = 32, buf = two_events\<rparr>"

text \<open>The same round after another thread has asked for a rescan.\<close>

definition env_rescan :: iter_env where
  "env_rescan = env_two_events\<lparr>rescan_requested := True\<rparr>"

text \<open>The same round when the thread has been interrupted before it.\<close>

definition env_cancelled :: iter_env where
  "env_cancelled = env_two_events\<lparr>interrupted := True\<rparr>"

text \<open>The poll reports pending data and the read fails.\<close>

definition env_read_fails :: iter_env where
  "env_read_fails =
     \<lparr>interrupted = False, rescan_requested = False, listFiles = [],
      add_watch = (\<lambda>i f. - 1), poll_result = 1, revents_POLLIN = True,
      read_result = - 1, buf = (\<lambda>i. 0)\<rparr>"

text \<open>
  A rescan is requested, the storage lists \<open>a.cpp\<close>, and \<open>inotify_add_watch\<close>
  fails; the poll times out.
\<close>

definition env_watch_fails :: iter_env where
  "env_watch_fails =
     \<lparr>interrupted = False, rescan_requested = True, listFiles = [''a.cpp''],
      add_watch = (\<lambda>i f. - 1), poll_result = 0, revents_POLLIN = False,
      read_result = 0, buf = (\<lambda>i. 0)\<rparr>"

subsection \<open>For the commands and the server\<close>

definition find_request :: "string \<Rightarrow> int \<Rightarrow> request" where
  "find_request f n =
     \<lparr>commandName = ''find'', optionValues = [(''file'', JString f), (''offset'', JInt n)]\<rparr>"

definition exit_request :: request where
  "exit_request = \<lparr>commandName = ''exit'', optionValues = []\<rparr>"

text \<open>A world in which an earlier request has set every option of \<open>find\<close>.\<close>

definition stale_world :: world where
  "stale_world =
     \<lparr>files = {},
      commands = new_parser
        \<lparr>FindCommand_args :=
           \<lparr>find_fileName = ''old.cpp'', find_offset = 7, find_mostSpecific = True,
            find_diagnostics = False, find_fromIndex = False\<rparr>\<rparr>,
      trace = []\<rparr>"

text \<open>A client asks for a definition, the next one for the exit.\<close>

definition two_clients :: "conn list" where
  "two_clients = [Accepted (find_request ''a.cpp'' 120) None, Accepted exit_request None]"

text \<open>An accept fails, then a client asks for the exit.\<close>

definition failed_accept_then_exit :: "conn list" where
  "failed_accept_then_exit = [AcceptError, Accepted exit_request None]"

definition server_env :: main_env where
  "server_env =
     \<lparr>getopt_ok = True, help_count = 0, stdin_count = 0, HAVE_INOTIFY = True,
      inotify_init = 3, stdin_request = exit_request, stdin_fails = None,
      acceptor_ok = True, conns = two_clients\<rparr>"

definition stdin_env :: main_env where
  "stdin_env =
     server_env\<lparr>stdin_count := 1, stdin_request := find_request ''a.cpp'' 120\<rparr>"

definition no_inotify_env :: main_env where
  "no_inotify_env = server_env\<lparr>inotify_init := - 1\<rparr>"

subsection \<open>For the \<open>index\<close> command\<close>




text \<open>
  The main thread runs up to the wait, the engine starts and completes a rebuild,
  the main thread goes on.
\<close>

definition fair_schedule :: "actor list" where
  "fair_schedule =
     [MainThread, MainThread, MainThread, EngineThread, EngineThread, MainThread, MainThread]"

section \<open>Properties of the watcher\<close>

subsection \<open>Basic facts\<close>

lemma emit_simps [simp]:
  "effects (emit x s) = effects s @ [x]"
  "inotifyMap (emit x s) = inotifyMap s"
  "updateRequested (emit x s) = updateRequested s"
  "fd_inotify (emit x s) = fd_inotify s"
  by (simp_all add: emit_def)

lemma index_calls_simps [simp]:
  "index_calls [] = 0"
  "index_calls (xs @ ys) = index_calls xs + index_calls ys"
  "index_calls (x # xs) = (if x = Index then 1 else 0) + index_calls xs"
  by (simp_all add: index_calls_def)

lemma watch_calls_append [simp]: "watch_calls (xs @ ys) = watch_calls xs @ watch_calls ys"
  by (induction xs rule: watch_calls.induct) simp_all

text \<open>The definitions that evaluate a round of the loop on a concrete input.\<close>

lemmas watcher_eval =
  iteration_def on_pollin_def new_Inotify_def update_scan_def update_def watch_file_def
  contains_def add_def empty_table_def fileName_def emit_def Let_def decode_events.simps
  event_wd_def event_len_def sizeof_inotify_event_def

lemma le32_two_events:
  "le32 two_events 0 = 1" "le32 two_events 16 = 2"
  "le32 two_events 12 = 0" "le32 two_events 28 = 0"
  by (simp_all add: le32_def two_events_def)

text \<open>A first round that registers two files and then reads two events.\<close>

lemma two_events_round:
  "effects (snd (iteration env_two_events (new_Inotify 3))) =
     [Log ''Updating watchlist...'', ListFiles, Log ''Watching a.cpp'', AddWatch ''a.cpp'' 1,
      Log ''Watching b.cpp'', AddWatch ''b.cpp'' 2, Poll 1, Read 32,
      Log ''Detected modification of a.cpp'', Log ''Detected modification of b.cpp'', Index]"
  by (simp add: env_two_events_def watcher_eval le32_two_events)

subsection \<open>Rebuild requests\<close>

text \<open>Neither the scan nor the decoding of events sends a rebuild request.\<close>

lemma index_calls_watch_file [simp]:
  "index_calls (effects (watch_file aw i f s)) = index_calls (effects s)"
  by (simp add: watch_file_def Let_def)

lemma index_calls_watch_files [simp]:
  "index_calls (effects (watch_files aw i fs s)) = index_calls (effects s)"
  by (induction fs arbitrary: i s) simp_all

lemma index_calls_update_scan [simp]:
  "index_calls (effects (update_scan e s)) = index_calls (effects s)"
  by (simp add: update_scan_def)

lemma index_calls_decode_events [simp]:
  "index_calls (effects (decode_events b len i s)) = index_calls (effects s)"
proof (induction b len i s rule: decode_events.induct)
  case (1 b len i s)
  show ?case
  proof (cases "i < len")
    case True
    with "1.IH" show ?thesis by (subst decode_events.simps) simp
  next
    case False
    then show ?thesis by (subst decode_events.simps) simp
  qed
qed

text \<open>
  Claim C1, as stated, asks for exactly one rebuild request in every wake-up in which
  the poll reports pending data.  It fails when the read that follows the poll returns
  less than one byte: the loop logs the error and goes back to its start without a
  request.  Here the poll returns 1 with \<open>POLLIN\<close> set and the read returns \<open>-1\<close>.
\<close>

theorem read_failure_sends_no_rebuild_request:
  "\<not> interrupted env_read_fails \<and> poll_result env_read_fails = 1 \<and>
   revents_POLLIN env_read_fails \<and>
   fst (iteration env_read_fails (new_Inotify 3)) = None \<and>
   effects (snd (iteration env_read_fails (new_Inotify 3))) =
     [Log ''Updating watchlist...'', ListFiles, Poll 1, Read (- 1), Perror ''read''] \<and>
   index_calls (effects (snd (iteration env_read_fails (new_Inotify 3)))) = 0"
  by (simp add: env_read_fails_def watcher_eval)

text \<open>
  Claim C1 (amended): in every wake-up of the watcher's loop in which the poll reports
  pending inotify data and the read returns at least one byte, the watcher sends exactly
  one rebuild request to the update thread, as the last thing it does in that wake-up,
  whatever the buffer holds and however many event records are decoded from it; when
  the read returns less than one byte, it sends none and the wake-up ends with the
  report of the error (\<open>perror ("read")\<close>).
\<close>

theorem wakeup_with_data_sends_one_rebuild_request:
  assumes "\<not> interrupted e" and "poll_result e \<noteq> - 1" and "revents_POLLIN e"
  shows "fst (iteration e s) = None \<and>
         index_calls (effects (snd (iteration e s))) =
           index_calls (effects s) + (if 1 \<le> read_result e then 1 else 0) \<and>
         last (effects (snd (iteration e s))) =
           (if 1 \<le> read_result e then Index else Perror ''read'')"
  using assms by (simp add: iteration_def on_pollin_def update_def Let_def)

text \<open>
  The theorem on a read that delivers two events, for \<open>a.cpp\<close> and for \<open>b.cpp\<close>: both
  are logged and one request is sent; and on a read that fails: the error is reported
  and no request is sent.
\<close>

theorem wakeup_with_data_sends_one_rebuild_request_witness:
  "\<not> interrupted env_two_events \<and> poll_result env_two_events \<noteq> - 1 \<and>
   revents_POLLIN env_two_events \<and> read_result env_two_events = 32 \<and>
   fst (iteration env_two_events (new_Inotify 3)) = None \<and>
   index_calls (effects (snd (iteration env_two_events (new_Inotify 3)))) =
     index_calls (effects (new_Inotify 3)) + 1 \<and>
   effects (snd (iteration env_two_events (new_Inotify 3))) =
     [Log ''Updating watchlist...'', ListFiles, Log ''Watching a.cpp'', AddWatch ''a.cpp'' 1,
      Log ''Watching b.cpp'', AddWatch ''b.cpp'' 2, Poll 1, Read 32,
      Log ''Detected modification of a.cpp'', Log ''Detected modification of b.cpp'', Index] \<and>
   \<not> interrupted env_read_fails \<and> poll_result env_read_fails \<noteq> - 1 \<and>
   revents_POLLIN env_read_fails \<and> read_result env_read_fails = - 1 \<and>
   index_calls (effects (snd (iteration env_read_fails (new_Inotify 3)))) =
     index_calls (effects (new_Inotify 3)) \<and>
   last (effects (snd (iteration env_read_fails (new_Inotify 3)))) = Perror ''read''"
proof -
  have hyps: "\<not> interrupted env_two_events" "poll_result env_two_events \<noteq> - 1"
    "revents_POLLIN env_two_events"
    and len: "read_result env_two_events = 32"
    by (simp_all add: env_two_events_def)
  have hyps': "\<not> interrupted env_read_fails" "poll_result env_read_fails \<noteq> - 1"
    "revents_POLLIN env_read_fails"
    and len': "read_result env_read_fails = - 1"
    by (simp_all add: env_read_fails_def)
  from wakeup_with_data_sends_one_rebuild_request [OF hyps, of "new_Inotify 3"]
    wakeup_with_data_sends_one_rebuild_request [OF hyps', of "new_Inotify 3"]
    hyps len hyps' len' two_events_round
  show ?thesis by simp
qed

subsection \<open>The watch table\<close>

lemma table_inv_new: "table_inv (new_Inotify fd)"
  by (simp add: table_inv_def new_Inotify_def empty_table_def)

lemma table_inv_emit:
  "table_inv s \<Longrightarrow> watch_calls [x] = [] \<Longrightarrow> table_inv (emit x s)"
  by (simp add: table_inv_def)

lemma table_inv_watch_file: "table_inv s \<Longrightarrow> table_inv (watch_file aw i f s)"
  by (auto simp: table_inv_def watch_file_def Let_def contains_def add_def)

lemma table_inv_watch_files: "table_inv s \<Longrightarrow> table_inv (watch_files aw i fs s)"
  by (induction fs arbitrary: i s) (simp_all add: table_inv_watch_file)

lemma table_inv_flag: "table_inv (s\<lparr>updateRequested := b\<rparr>) = table_inv s"
  by (simp add: table_inv_def)

lemma table_inv_update_scan: "table_inv s \<Longrightarrow> table_inv (update_scan e s)"
  by (simp add: update_scan_def table_inv_watch_files table_inv_emit)

lemma inotifyMap_decode_events [simp]:
  "inotifyMap (decode_events b len i s) = inotifyMap s"
proof (induction b len i s rule: decode_events.induct)
  case (1 b len i s)
  then show ?case by (subst decode_events.simps) simp
qed

lemma watch_calls_decode_events [simp]:
  "watch_calls (effects (decode_events b len i s)) = watch_calls (effects s)"
proof (induction b len i s rule: decode_events.induct)
  case (1 b len i s)
  then show ?case by (subst decode_events.simps) simp
qed

lemma table_inv_decode_events: "table_inv s \<Longrightarrow> table_inv (decode_events b len i s)"
  by (simp add: table_inv_def)

lemma table_inv_on_pollin: "table_inv s \<Longrightarrow> table_inv (on_pollin e s)"
  by (simp add: on_pollin_def Let_def table_inv_emit table_inv_decode_events)

lemma table_inv_iteration: "table_inv s \<Longrightarrow> table_inv (snd (iteration e s))"
  by (simp add: iteration_def Let_def update_def table_inv_flag table_inv_emit
      table_inv_update_scan table_inv_on_pollin)

lemma table_inv_run: "table_inv s \<Longrightarrow> table_inv (snd (Inotify_run es s))"
proof (induction es arbitrary: s)
  case Nil
  then show ?case by simp
next
  case (Cons e es)
  from Cons.prems have "table_inv (snd (iteration e s))"
    by (rule table_inv_iteration)
  with Cons.IH show ?case by (auto split: prod.splits option.splits)
qed

text \<open>
  Claim C2: over every run of the watcher from its construction, whatever the storage
  lists at each rescan and whatever \<open>inotify_add_watch\<close> answers, no file name is
  handed to \<open>inotify_add_watch\<close> twice, and the table holds at most one handle for a
  file name.
\<close>

theorem no_file_watched_twice:
  "distinct (watch_calls (effects (snd (Inotify_run es (new_Inotify fd))))) \<and>
   (\<forall>f wd wd'.
      file_of (inotifyMap (snd (Inotify_run es (new_Inotify fd)))) wd = Some f \<longrightarrow>
      file_of (inotifyMap (snd (Inotify_run es (new_Inotify fd)))) wd' = Some f \<longrightarrow>
      wd = wd')"
proof -
  have "table_inv (snd (Inotify_run es (new_Inotify fd)))"
    by (rule table_inv_run [OF table_inv_new])
  then show ?thesis unfolding table_inv_def by (metis option.inject)
qed

text \<open>
  The theorem on two rounds with a rescan each, over a list that names \<open>a.cpp\<close>
  twice: two registrations in all, and the handle 1 stands for \<open>a.cpp\<close>.
\<close>

theorem no_file_watched_twice_witness:
  "watch_calls (effects (snd (Inotify_run [env_two_events, env_rescan] (new_Inotify 3)))) =
     [''a.cpp'', ''b.cpp''] \<and>
   distinct (watch_calls (effects (snd (Inotify_run [env_two_events, env_rescan] (new_Inotify 3))))) \<and>
   file_of (inotifyMap (snd (Inotify_run [env_two_events, env_rescan] (new_Inotify 3)))) 1 =
     Some ''a.cpp''"
proof -
  let ?s = "snd (Inotify_run [env_two_events, env_rescan] (new_Inotify 3))"
  have calls: "watch_calls (effects ?s) = [''a.cpp'', ''b.cpp'']"
    by (simp add: env_rescan_def env_two_events_def watcher_eval le32_two_events)
  have handle: "file_of (inotifyMap ?s) 1 = Some ''a.cpp''"
    by (simp add: env_rescan_def env_two_events_def watcher_eval le32_two_events)
  from no_file_watched_twice [of "[env_two_events, env_rescan]" 3]
  have "distinct (watch_calls (effects ?s))" by blast
  with calls handle show ?thesis by blast
qed

text \<open>
  Claim C3 says that a file whose registration failed is tried again by the next
  rescan.  The code records the failed file in the table with the handle \<open>-1\<close>, so
  the next rescan takes it for a watched file and skips it.  Here \<open>inotify_add_watch\<close>
  fails for \<open>a.cpp\<close> in the first round; the second round, with a rescan requested and
  the file still listed, makes no call of \<open>inotify_add_watch\<close>.
\<close>

theorem failed_watch_is_not_retried:
  "effects (snd (Inotify_run [env_watch_fails] (new_Inotify 3))) =
     [Log ''Updating watchlist...'', ListFiles, Log ''Watching a.cpp'',
      AddWatch ''a.cpp'' (- 1), Perror ''inotify_add_watch'', Poll 0] \<and>
   effects (snd (Inotify_run [env_watch_fails, env_watch_fails] (new_Inotify 3))) =
     effects (snd (Inotify_run [env_watch_fails] (new_Inotify 3))) @
     [Log ''Updating watchlist...'', ListFiles, Poll 0] \<and>
   wd_of (inotifyMap (snd (Inotify_run [env_watch_fails] (new_Inotify 3)))) ''a.cpp'' =
     Some (- 1)"
  by (simp add: env_watch_fails_def watcher_eval)

subsection \<open>The first round\<close>

lemma no_poll_watch_file:
  "\<forall>x\<in>set (effects s). \<not> is_Poll x \<Longrightarrow>
   \<forall>x\<in>set (effects (watch_file aw i f s)). \<not> is_Poll x"
  by (auto simp: watch_file_def Let_def)

lemma no_poll_watch_files:
  "\<forall>x\<in>set (effects s). \<not> is_Poll x \<Longrightarrow>
   \<forall>x\<in>set (effects (watch_files aw i fs s)). \<not> is_Poll x"
proof (induction fs arbitrary: i s)
  case Nil
  then show ?case by simp
next
  case (Cons f fs)
  from Cons.prems have "\<forall>x\<in>set (effects (watch_file aw i f s)). \<not> is_Poll x"
    by (rule no_poll_watch_file)
  then show ?case using Cons.IH by simp
qed

text \<open>A scan calls \<open>inotify_add_watch\<close> for the listed files that the table lacks.\<close>

lemma watch_calls_watch_files:
  "set (watch_calls (effects (watch_files aw i fs s))) =
     set (watch_calls (effects s)) \<union> (set fs - dom (wd_of (inotifyMap s)))"
proof (induction fs arbitrary: i s)
  case Nil
  then show ?case by simp
next
  case (Cons f fs)
  show ?case
    by (subst watch_files.simps, subst Cons.IH)
       (auto simp: watch_file_def Let_def contains_def add_def)
qed

lemma effects_watch_files_prefix:
  "\<exists>ys. effects (watch_files aw i fs s) = effects s @ ys"
proof (induction fs arbitrary: i s)
  case Nil
  then show ?case by simp
next
  case (Cons f fs)
  obtain ys where
    "effects (watch_files aw (Suc i) fs (watch_file aw i f s)) = effects (watch_file aw i f s) @ ys"
    using Cons.IH by blast
  moreover have "\<exists>zs. effects (watch_file aw i f s) = effects s @ zs"
    by (simp add: watch_file_def Let_def)
  ultimately show ?case by auto
qed

lemma first_scan:
  assumes "effects s = []" and "inotifyMap s = empty_table"
  shows "(\<forall>x\<in>set (effects (update_scan e s)). \<not> is_Poll x) \<and>
         ListFiles \<in> set (effects (update_scan e s)) \<and>
         set (watch_calls (effects (update_scan e s))) = set (listFiles e)"
proof -
  let ?s0 = "emit ListFiles (emit (Log ''Updating watchlist...'') s)"
  have a: "\<forall>x\<in>set (effects ?s0). \<not> is_Poll x"
    using assms by simp
  have "\<forall>x\<in>set (effects (update_scan e s)). \<not> is_Poll x"
    unfolding update_scan_def by (rule no_poll_watch_files [OF a])
  moreover obtain ys where "effects (update_scan e s) = effects ?s0 @ ys"
    unfolding update_scan_def using effects_watch_files_prefix by blast
  then have "ListFiles \<in> set (effects (update_scan e s))"
    by simp
  moreover have "set (watch_calls (effects (update_scan e s))) = set (listFiles e)"
    using assms by (simp add: update_scan_def watch_calls_watch_files empty_table_def)
  ultimately show ?thesis by blast
qed

lemma takeWhile_before_poll:
  "\<forall>x\<in>set xs. \<not> is_Poll x \<Longrightarrow> takeWhile (\<lambda>x. \<not> is_Poll x) (xs @ Poll r # ys) = xs"
  by (induction xs) simp_all

lemma effects_decode_events_prefix:
  "\<exists>ys. effects (decode_events b len i s) = effects s @ ys"
proof (induction b len i s rule: decode_events.induct)
  case (1 b len i s)
  show ?case
  proof (cases "i < len")
    case True
    with "1.IH" show ?thesis by (subst decode_events.simps) auto
  next
    case False
    then show ?thesis by (subst decode_events.simps) simp
  qed
qed

lemma effects_on_pollin_prefix: "\<exists>ys. effects (on_pollin e s) = effects s @ ys"
proof (cases "read_result e < 1")
  case True
  then show ?thesis by (simp add: on_pollin_def)
next
  case False
  obtain ys where
    "effects (decode_events (buf e) (nat (read_result e)) 0 (emit (Read (read_result e)) s)) =
       effects (emit (Read (read_result e)) s) @ ys"
    using effects_decode_events_prefix by blast
  with False show ?thesis by (simp add: on_pollin_def)
qed

lemma updateRequested_decode_events [simp]:
  "updateRequested (decode_events b len i s) = updateRequested s"
proof (induction b len i s rule: decode_events.induct)
  case (1 b len i s)
  then show ?case by (subst decode_events.simps) simp
qed

lemma updateRequested_on_pollin [simp]:
  "updateRequested (on_pollin e s) = updateRequested s"
  by (simp add: on_pollin_def Let_def)

text \<open>
  Claim C9, as stated, has the first round of the loop always scan.  The round opens
  with an interruption point: when the thread has been interrupted before it gets there
  (the main thread interrupts the watcher as soon as it has served its requests), the
  exception leaves the loop and nothing is scanned, though the storage lists files.
\<close>

theorem interrupted_first_round_scans_nothing:
  "interrupted env_cancelled \<and>
   listFiles env_cancelled = [''a.cpp'', ''b.cpp'', ''a.cpp''] \<and>
   fst (iteration env_cancelled (new_Inotify 3)) = Some ThreadInterrupted \<and>
   effects (snd (iteration env_cancelled (new_Inotify 3))) = []"
  by (simp add: env_cancelled_def env_two_events_def iteration_def new_Inotify_def)

text \<open>
  Claim C9 (amended): the rescan flag is true at construction, so the first round of
  the watcher's loop, unless the thread is interrupted at the interruption point that
  opens it, scans the watch list before its first poll, whether or not another thread
  has asked for a rescan: it fetches the list from the storage and calls
  \<open>inotify_add_watch\<close> for every file on it, then clears the flag and polls.
\<close>

theorem first_round_scans_before_first_poll:
  assumes "\<not> interrupted e"
  shows "updateRequested (new_Inotify fd) \<and>
     ListFiles \<in> set (takeWhile (\<lambda>x. \<not> is_Poll x) (effects (snd (iteration e (new_Inotify fd))))) \<and>
     set (watch_calls (takeWhile (\<lambda>x. \<not> is_Poll x) (effects (snd (iteration e (new_Inotify fd))))))
       = set (listFiles e) \<and>
     Poll (poll_result e) \<in> set (effects (snd (iteration e (new_Inotify fd)))) \<and>
     \<not> updateRequested (snd (iteration e (new_Inotify fd)))"
proof -
  let ?s = "new_Inotify fd"
  let ?sc = "update_scan e ?s"
  have scan: "(\<forall>x\<in>set (effects ?sc). \<not> is_Poll x) \<and> ListFiles \<in> set (effects ?sc) \<and>
     set (watch_calls (effects ?sc)) = set (listFiles e)"
    by (rule first_scan) (simp_all add: new_Inotify_def)
  have flag: "updateRequested (if rescan_requested e then update ?s else ?s)"
    and same: "update_scan e (if rescan_requested e then update ?s else ?s) = ?sc"
    by (simp_all add: update_def new_Inotify_def)
  let ?s2 = "emit (Poll (poll_result e)) (?sc\<lparr>updateRequested := False\<rparr>)"
  have "\<exists>ys. effects (snd (iteration e ?s)) = effects ?sc @ Poll (poll_result e) # ys"
  proof (cases "poll_result e \<noteq> - 1 \<and> revents_POLLIN e")
    case True
    obtain zs where "effects (on_pollin e ?s2) = effects ?s2 @ zs"
      using effects_on_pollin_prefix by blast
    with True assms flag same show ?thesis by (simp add: iteration_def Let_def)
  next
    case False
    with assms flag same show ?thesis by (auto simp: iteration_def Let_def)
  qed
  then obtain ys where
    ys: "effects (snd (iteration e ?s)) = effects ?sc @ Poll (poll_result e) # ys"
    by blast
  have cleared: "\<not> updateRequested (snd (iteration e ?s))"
    using assms flag by (simp add: iteration_def Let_def)
  have "updateRequested ?s"
    by (simp add: new_Inotify_def)
  with cleared scan show ?thesis by (simp add: ys takeWhile_before_poll)
qed

text \<open>
  The theorem on the round of the two events: before the poll the watcher has listed
  the files and registered \<open>a.cpp\<close> and \<open>b.cpp\<close>.
\<close>

theorem first_round_scans_before_first_poll_witness:
  "\<not> interrupted env_two_events \<and>
   takeWhile (\<lambda>x. \<not> is_Poll x) (effects (snd (iteration env_two_events (new_Inotify 3)))) =
     [Log ''Updating watchlist...'', ListFiles, Log ''Watching a.cpp'', AddWatch ''a.cpp'' 1,
      Log ''Watching b.cpp'', AddWatch ''b.cpp'' 2] \<and>
   set (watch_calls
         (takeWhile (\<lambda>x. \<not> is_Poll x) (effects (snd (iteration env_two_events (new_Inotify 3))))))
     = set (listFiles env_two_events)"
proof -
  have hyp: "\<not> interrupted env_two_events"
    by (simp add: env_two_events_def)
  have before:
    "takeWhile (\<lambda>x. \<not> is_Poll x) (effects (snd (iteration env_two_events (new_Inotify 3)))) =
       [Log ''Updating watchlist...'', ListFiles, Log ''Watching a.cpp'', AddWatch ''a.cpp'' 1,
        Log ''Watching b.cpp'', AddWatch ''b.cpp'' 2]"
    by (simp add: two_events_round)
  from first_round_scans_before_first_poll [OF hyp, of 3] hyp before
  show ?thesis by blast
qed

section \<open>Properties of the commands and the server\<close>

subsection \<open>Basic facts\<close>

lemma perform_simps [simp]:
  "trace (perform x w) = trace w @ [x]"
  "files (perform x w) = files w"
  "commands (perform x w) = commands w"
  by (simp_all add: perform_def)

lemma perform_all_simps [simp]:
  "trace (perform_all xs w) = trace w @ xs"
  "files (perform_all xs w) = files w"
  "commands (perform_all xs w) = commands w"
  by (induction xs arbitrary: w) simp_all

text \<open>The definitions that evaluate a dispatch on a concrete request.\<close>

lemmas dispatch_eval =
  parseJson_def registry_def LoadCommand_options_def ConfigCommand_options_def
  FindCommand_options_def GrepCommand_options_def CompleteCommand_options_def
  LoadCommand_defaults_def ConfigCommand_defaults_def FindCommand_defaults_def
  GrepCommand_defaults_def CompleteCommand_defaults_def
  bool_cell_def int_cell_def string_cell_def executor_def ExitCommand_run_def
  IndexCommand_run_def Let_def

text \<open>The definitions that evaluate the server on concrete connections.\<close>

lemmas server_eval =
  Serve_block_def Serve_operator_def Serve_def Serve_destructor_def unlink_def
  pidPath_def socketPath_def initial_world_def new_parser_def


text \<open>The definitions that evaluate \<open>main\<close> on a concrete environment.\<close>

lemmas main_eval =
  main_def main_try_def start_watch_def Inotify_def stop_threads_def EXIT_SUCCESS_def
  EXIT_FAILURE_def

subsection \<open>The defaults of \<open>find\<close>\<close>

text \<open>The defaults of \<open>find\<close> set every member of the structure.\<close>

lemma FindCommand_defaults_const: "FindCommand_defaults a = FindCommand_defaults b"
  by (simp add: FindCommand_defaults_def)

text \<open>
  Claim C7: every dispatch of the \<open>find\<close> command reapplies the defaults before it
  binds the values of the request.  A request that supplies only \<open>file\<close> and
  \<open>offset\<close> reaches the query executor with these two values and with
  \<open>mostSpecific = false\<close>, \<open>diagnostics = true\<close> and \<open>fromIndex = true\<close>; and what
  an earlier request has left in the options of the command has no influence on the
  dispatch of any \<open>find\<close> request.
\<close>

theorem find_defaults_reapplied:
  "fst (parseJson io verbose (find_request f n) fails w) = fails \<and>
   last (trace (snd (parseJson io verbose (find_request f n) fails w))) =
     Executor io (RunFind \<lparr>find_fileName = f, find_offset = n, find_mostSpecific = False,
       find_diagnostics = True, find_fromIndex = True\<rparr>) \<and>
   FindCommand_args (commands (snd (parseJson io verbose (find_request f n) fails w))) =
     \<lparr>find_fileName = f, find_offset = n, find_mostSpecific = False,
      find_diagnostics = True, find_fromIndex = True\<rparr> \<and>
   parseJson io verbose (r\<lparr>commandName := ''find''\<rparr>) fails
       (w\<lparr>commands := (commands w)\<lparr>FindCommand_args := a\<rparr>\<rparr>) =
     parseJson io verbose (r\<lparr>commandName := ''find''\<rparr>) fails w"
proof -
  have "parseJson io verbose (r\<lparr>commandName := ''find''\<rparr>) fails
       (w\<lparr>commands := (commands w)\<lparr>FindCommand_args := a\<rparr>\<rparr>) =
     parseJson io verbose (r\<lparr>commandName := ''find''\<rparr>) fails w"
    by (simp add: parseJson_def registry_def Let_def perform_def
        FindCommand_defaults_const [of a "FindCommand_args (commands w)"] split: prod.splits option.splits)
  then show ?thesis
    by (simp add: find_request_def dispatch_eval)
qed

text \<open>
  The request \<open>{command: "find", file: "a.cpp", offset: 120}\<close> in a world where an
  earlier request has set every option of the command to another value.
\<close>

theorem find_defaults_reapplied_witness:
  "FindCommand_args (commands stale_world) =
     \<lparr>find_fileName = ''old.cpp'', find_offset = 7, find_mostSpecific = True,
      find_diagnostics = False, find_fromIndex = False\<rparr> \<and>
   trace (snd (parseJson Socket True (find_request ''a.cpp'' 120) None stale_world)) =
     [ReadRequest Socket (find_request ''a.cpp'' 120), Echo (find_request ''a.cpp'' 120),
      Executor Socket (RunFind \<lparr>find_fileName = ''a.cpp'', find_offset = 120,
        find_mostSpecific = False, find_diagnostics = True, find_fromIndex = True\<rparr>)]"
proof -
  have "trace (snd (parseJson Socket True (find_request ''a.cpp'' 120) None stale_world)) =
     [ReadRequest Socket (find_request ''a.cpp'' 120), Echo (find_request ''a.cpp'' 120),
      last (trace (snd (parseJson Socket True (find_request ''a.cpp'' 120) None stale_world)))]"
    by (simp add: stale_world_def find_request_def dispatch_eval)
  with find_defaults_reapplied [of Socket True "''a.cpp''" 120 None stale_world]
  show ?thesis by (simp add: stale_world_def)
qed

subsection \<open>The exit command\<close>

lemma parseJson_exit:
  "fst (parseJson io verbose exit_request fails w) = Some (RuntimeError ''shutdown requested'')"
  by (simp add: parseJson_def exit_request_def registry_def ExitCommand_run_def Let_def)

lemma accept_loop_exit:
  "Accepted exit_request y \<in> set cs \<Longrightarrow> fst (accept_loop cs w) \<noteq> Running"
proof (induction cs w rule: accept_loop.induct)
  case (1 w)
  then show ?case by simp
next
  case (2 cs w)
  then show ?case by simp
next
  case (3 r fails cs w)
  show ?case
  proof (cases "parseJson Socket True r fails (perform (Accept True) w)")
    case (Pair a w')
    show ?thesis
    proof (cases a)
      case None
      with Pair 3 parseJson_exit [of Socket True fails "perform (Accept True) w"]
      show ?thesis by auto
    next
      case (Some x)
      with Pair show ?thesis by simp
    qed
  qed
qed

lemma Serve_operator_exit:
  "Accepted exit_request y \<in> set cs \<Longrightarrow> fst (Serve_operator ok cs w) \<noteq> Running"
  by (simp add: Serve_operator_def Let_def accept_loop_exit)

lemma files_Serve_destructor:
  "pidPath \<notin> files (Serve_destructor w) \<and> socketPath \<notin> files (Serve_destructor w)"
  by (simp add: Serve_destructor_def unlink_def)

lemma Serve_block_returned:
  "fst (Serve_block ok cs w) \<noteq> Running \<Longrightarrow>
   pidPath \<notin> files (snd (Serve_block ok cs w)) \<and> socketPath \<notin> files (snd (Serve_block ok cs w))"
  by (auto simp: Serve_block_def files_Serve_destructor split: prod.splits outcome.splits)

lemma Serve_block_Running:
  "fst (Serve_block ok cs w) = Running \<longleftrightarrow> fst (Serve_operator ok cs (Serve w)) = Running"
  by (auto simp: Serve_block_def split: prod.splits outcome.splits)

lemma files_stop_threads [simp]: "files (stop_threads e w) = files w"
  by (simp add: stop_threads_def)

text \<open>\<open>main\<close> in server mode, once the threads are started.\<close>

lemma main_server:
  assumes "getopt_ok e" and "help_count e = 0" and "stdin_count e = 0"
    and "\<not> (HAVE_INOTIFY e \<and> inotify_init e = - 1)"
  shows "\<exists>w1. main e w =
     (case Serve_block (acceptor_ok e) (conns e) w1 of
        (Running, w') \<Rightarrow> (Serving, w')
      | (Thrown x, w') \<Rightarrow> (Exit EXIT_SUCCESS, stop_threads e w'))"
proof -
  obtain w0 where "start_watch e (perform (Start UpdateThread) w) = (None, w0)"
    using assms(4) by (cases "HAVE_INOTIFY e") (simp_all add: start_watch_def Inotify_def)
  with assms(1-3) have "main e w =
     (case Serve_block (acceptor_ok e) (conns e) (w0\<lparr>commands := new_parser\<rparr>) of
        (Running, w') \<Rightarrow> (Serving, w')
      | (Thrown x, w') \<Rightarrow> (Exit EXIT_SUCCESS, stop_threads e w'))"
    by (simp add: main_def main_try_def split: prod.splits outcome.splits)
  then show ?thesis by blast
qed

text \<open>
  Claim C5: executing the \<open>exit\<close> command raises the termination signal, which
  leaves the dispatch as an exception; a server that accepts an \<open>exit\<close> request
  leaves its loop; whenever the block of the server is left, by whatever exception, the
  pid file and the socket path are gone from the working directory; and \<open>main\<close>, in
  server mode, then returns with both files removed.
\<close>

theorem exit_ends_server_and_removes_files:
  "fst (parseJson io verbose exit_request fails w0) = Some (RuntimeError ''shutdown requested'') \<and>
   (Accepted exit_request y \<in> set cs \<longrightarrow> fst (Serve_block ok cs w) \<noteq> Running) \<and>
   (fst (Serve_block ok cs w) \<noteq> Running \<longrightarrow>
      pidPath \<notin> files (snd (Serve_block ok cs w)) \<and>
      socketPath \<notin> files (snd (Serve_block ok cs w))) \<and>
   (getopt_ok e \<and> help_count e = 0 \<and> stdin_count e = 0 \<and>
    \<not> (HAVE_INOTIFY e \<and> inotify_init e = - 1) \<and> Accepted exit_request y \<in> set (conns e) \<longrightarrow>
      fst (main e w) = Exit EXIT_SUCCESS \<and>
      pidPath \<notin> files (snd (main e w)) \<and> socketPath \<notin> files (snd (main e w)))"
proof -
  have block: "fst (Serve_block ok' cs' w') \<noteq> Running"
    if "Accepted exit_request y \<in> set cs'" for ok' cs' w'
    using that by (simp add: Serve_block_Running Serve_operator_exit)
  have "fst (main e w) = Exit EXIT_SUCCESS \<and>
      pidPath \<notin> files (snd (main e w)) \<and> socketPath \<notin> files (snd (main e w))"
    if h: "getopt_ok e" "help_count e = 0" "stdin_count e = 0"
      "\<not> (HAVE_INOTIFY e \<and> inotify_init e = - 1)" "Accepted exit_request y \<in> set (conns e)"
  proof -
    obtain w1 where m: "main e w =
       (case Serve_block (acceptor_ok e) (conns e) w1 of
          (Running, w') \<Rightarrow> (Serving, w')
        | (Thrown x, w') \<Rightarrow> (Exit EXIT_SUCCESS, stop_threads e w'))"
      using main_server [OF h(1-4)] by blast
    have r: "fst (Serve_block (acceptor_ok e) (conns e) w1) \<noteq> Running"
      using h(5) by (rule block)
    then obtain x w2 where s: "Serve_block (acceptor_ok e) (conns e) w1 = (Thrown x, w2)"
      by (cases "Serve_block (acceptor_ok e) (conns e) w1"; cases "fst (Serve_block (acceptor_ok e) (conns e) w1)") auto
    with Serve_block_returned [OF r] m show ?thesis by simp
  qed
  with block Serve_block_returned parseJson_exit show ?thesis by blast
qed

text \<open>
  Two clients, the second of which asks for the exit, in a working directory that
  holds a compilation database: the server ends with the termination signal, and the
  program leaves the directory as it found it.
\<close>

lemma server_env_run:
  "fst (main server_env (initial_world {''compile_commands.json''})) = Exit EXIT_SUCCESS \<and>
   files (snd (main server_env (initial_world {''compile_commands.json''}))) = {''compile_commands.json''} \<and>
   trace (snd (main server_env (initial_world {''compile_commands.json''}))) =
     [Start UpdateThread, Start WatchThread, WritePid, Cerr ''Server starting with pid: '', Bind,
      Accept True, ReadRequest Socket (find_request ''a.cpp'' 120), Echo (find_request ''a.cpp'' 120),
      Executor Socket (RunFind \<lparr>find_fileName = ''a.cpp'', find_offset = 120,
        find_mostSpecific = False, find_diagnostics = True, find_fromIndex = True\<rparr>),
      Accept True, ReadRequest Socket exit_request, Echo exit_request, Cout Socket ''Exiting...'',
      Cerr ''Server exiting...'', Unlink ''.ct.sock'', Unlink ''.ct.pid'',
      Interrupt UpdateThread, Interrupt WatchThread, Join UpdateThread, Join WatchThread]"
  by (simp add: server_env_def two_clients_def find_request_def exit_request_def
      main_eval server_eval dispatch_eval)

text \<open>The theorem on this run.\<close>

theorem exit_ends_server_and_removes_files_witness:
  "Accepted exit_request None \<in> set two_clients \<and>
   fst (Serve_block True two_clients (initial_world {''compile_commands.json''})) =
     Thrown (RuntimeError ''shutdown requested'') \<and>
   pidPath \<notin> files (snd (Serve_block True two_clients (initial_world {''compile_commands.json''}))) \<and>
   socketPath \<notin> files (snd (Serve_block True two_clients (initial_world {''compile_commands.json''}))) \<and>
   fst (main server_env (initial_world {''compile_commands.json''})) = Exit EXIT_SUCCESS \<and>
   files (snd (main server_env (initial_world {''compile_commands.json''}))) =
     {''compile_commands.json''}"
proof -
  have a: "Accepted exit_request None \<in> set two_clients"
    by (simp add: two_clients_def)
  have b: "fst (Serve_block True two_clients (initial_world {''compile_commands.json''})) =
     Thrown (RuntimeError ''shutdown requested'')"
    by (simp add: two_clients_def find_request_def exit_request_def server_eval dispatch_eval)
  from exit_ends_server_and_removes_files
    [of Socket True None "initial_world {}" None two_clients True
      "initial_world {''compile_commands.json''}" server_env]
    a b server_env_run
  show ?thesis by simp
qed

subsection \<open>What ends the accept loop\<close>

lemma run_commands_only:
  "commands u = commands u' \<Longrightarrow>
   fst (run c io fails u) = fst (run c io fails u') \<and>
   commands (snd (run c io fails u)) = commands (snd (run c io fails u'))"
  by (cases c) (simp_all add: executor_def ExitCommand_run_def)

lemma parseJson_commands_only:
  assumes "commands w = commands w'"
  shows "fst (parseJson io v r fails w) = fst (parseJson io v r fails w') \<and>
         commands (snd (parseJson io v r fails w)) = commands (snd (parseJson io v r fails w'))"
proof -
  define u where
    "u = (if v then perform (Echo r) (perform (ReadRequest io r) w) else perform (ReadRequest io r) w)"
  define u' where
    "u' = (if v then perform (Echo r) (perform (ReadRequest io r) w') else perform (ReadRequest io r) w')"
  have c: "commands u = commands w'" "commands u' = commands w'"
    using assms by (simp_all add: u_def u'_def)
  show ?thesis
  proof (cases "map_of registry (commandName r)")
    case None
    with c show ?thesis
      by (simp add: parseJson_def Let_def u_def [symmetric] u'_def [symmetric])
  next
    case (Some c)
    obtain err p where b: "bind_command c (optionValues r) (commands w') = (err, p)"
      by (cases "bind_command c (optionValues r) (commands w')")
    show ?thesis
    proof (cases err)
      case None
      have "fst (run c io fails (u\<lparr>commands := p\<rparr>)) = fst (run c io fails (u'\<lparr>commands := p\<rparr>)) \<and>
        commands (snd (run c io fails (u\<lparr>commands := p\<rparr>))) =
        commands (snd (run c io fails (u'\<lparr>commands := p\<rparr>)))"
        by (rule run_commands_only) simp
      with Some b c None show ?thesis
        by (simp add: parseJson_def Let_def u_def [symmetric] u'_def [symmetric])
    next
      case e: (Some err')
      with Some b c show ?thesis
        by (simp add: parseJson_def Let_def u_def [symmetric] u'_def [symmetric])
    qed
  qed
qed

lemma accept_loop_commands_only:
  "commands w = commands w' \<Longrightarrow> fst (accept_loop cs w) = fst (accept_loop cs w')"
proof (induction cs arbitrary: w w')
  case Nil
  then show ?case by simp
next
  case (Cons c cs)
  show ?case
  proof (cases c)
    case AcceptError
    from Cons.prems
    have "commands (perform (Accept False) w) = commands (perform (Accept False) w')"
      by simp
    then have "fst (accept_loop cs (perform (Accept False) w)) =
        fst (accept_loop cs (perform (Accept False) w'))"
      by (rule Cons.IH)
    with AcceptError show ?thesis by simp
  next
    case (Accepted r fails)
    let ?p = "parseJson Socket True r fails (perform (Accept True) w)"
    let ?p' = "parseJson Socket True r fails (perform (Accept True) w')"
    from Cons.prems have eq: "fst ?p = fst ?p' \<and> commands (snd ?p) = commands (snd ?p')"
      by (intro parseJson_commands_only) simp
    then have "fst (accept_loop cs (snd ?p)) = fst (accept_loop cs (snd ?p'))"
      by (intro Cons.IH) simp
    with eq Accepted show ?thesis
      by (cases ?p; cases ?p') (auto split: option.splits)
  qed
qed

lemma accept_loop_skips_errors:
  "fst (accept_loop (filter (\<lambda>c. c \<noteq> AcceptError) cs) w) = fst (accept_loop cs w)"
proof (induction cs w rule: accept_loop.induct)
  case (1 w)
  then show ?case by simp
next
  case (2 cs w)
  have "fst (accept_loop cs (perform (Accept False) w)) = fst (accept_loop cs w)"
    by (rule accept_loop_commands_only) simp
  moreover have
    "fst (accept_loop (filter (\<lambda>c. c \<noteq> AcceptError) cs) (perform (Accept False) w)) =
     fst (accept_loop (filter (\<lambda>c. c \<noteq> AcceptError) cs) w)"
    by (rule accept_loop_commands_only) simp
  ultimately show ?case using 2 by simp
next
  case (3 r fails cs w)
  then show ?case by (auto split: prod.splits option.splits)
qed

lemma accept_loop_thrown:
  "fst (accept_loop cs w) = Thrown x \<Longrightarrow>
   \<exists>r fails w1. Accepted r fails \<in> set cs \<and> fst (parseJson Socket True r fails w1) = Some x"
proof (induction cs w rule: accept_loop.induct)
  case (1 w)
  then show ?case by simp
next
  case (2 cs w)
  then show ?case by auto
next
  case (3 r fails cs w)
  show ?case
  proof (cases "parseJson Socket True r fails (perform (Accept True) w)")
    case (Pair a w')
    show ?thesis
    proof (cases a)
      case None
      with Pair 3 show ?thesis by auto
    next
      case (Some y)
      with Pair "3.prems"
      have "fst (parseJson Socket True r fails (perform (Accept True) w)) = Some x"
        by simp
      then show ?thesis by auto
    qed
  qed
qed

text \<open>
  Claim C6, as stated, has an error of \<open>accept\<close> end the serve loop.  The loop tests
  the error code only to skip the dispatch (\<open>if (!err)\<close>) and goes round again: after
  two failed accepts the server is still in its loop, and after a failed accept it
  accepts the next client and serves it.
\<close>

theorem accept_error_does_not_end_serve:
  "fst (Serve_operator True [AcceptError, AcceptError] (initial_world {})) = Running \<and>
   trace (snd (Serve_operator True [AcceptError, AcceptError] (initial_world {}))) =
     [Cerr ''Server starting with pid: '', Bind, Accept False, Accept False] \<and>
   trace (snd (Serve_operator True failed_accept_then_exit (initial_world {}))) =
     [Cerr ''Server starting with pid: '', Bind, Accept False, Accept True,
      ReadRequest Socket exit_request, Echo exit_request, Cout Socket ''Exiting...'']"
  by (simp add: failed_accept_then_exit_def exit_request_def server_eval dispatch_eval)

text \<open>
  Claim C6 (amended): \<open>Serve::operator()\<close> is left only by an exception: one that
  propagates out of the dispatch of an accepted request (the termination signal of
  \<open>exit\<close> is one), or the failure of the acceptor's construction.  An error returned
  by \<open>accept\<close> does not end the loop: the connection is skipped, the errors have no
  influence on whether and how the loop ends, and a server that sees nothing but accept
  errors stays in its loop.
\<close>

theorem serve_ends_only_by_exception:
  "(fst (Serve_operator ok cs w) = Thrown x \<longrightarrow>
      \<not> ok \<and> x = SystemError \<or>
      (\<exists>r fails w1. Accepted r fails \<in> set cs \<and>
         fst (parseJson Socket True r fails w1) = Some x)) \<and>
   fst (Serve_operator ok (filter (\<lambda>c. c \<noteq> AcceptError) cs) w) = fst (Serve_operator ok cs w) \<and>
   ((\<forall>c\<in>set cs. c = AcceptError) \<longrightarrow> fst (Serve_operator True cs w) = Running)"
proof -
  have a: "fst (Serve_operator ok cs w) = Thrown x \<Longrightarrow>
      \<not> ok \<and> x = SystemError \<or>
      (\<exists>r fails w1. Accepted r fails \<in> set cs \<and>
         fst (parseJson Socket True r fails w1) = Some x)"
  proof (cases ok)
    case True
    assume "fst (Serve_operator ok cs w) = Thrown x"
    with True have "fst (accept_loop cs (perform Bind
        ((perform (Cerr ''Server starting with pid: '') w)
           \<lparr>files := insert socketPath (files (perform (Cerr ''Server starting with pid: '') w))\<rparr>)))
        = Thrown x"
      by (simp add: Serve_operator_def Let_def)
    then show ?thesis by (blast dest: accept_loop_thrown)
  next
    case False
    assume "fst (Serve_operator ok cs w) = Thrown x"
    with False show ?thesis by (simp add: Serve_operator_def Let_def)
  qed
  have b: "fst (Serve_operator ok' (filter (\<lambda>c. c \<noteq> AcceptError) cs) w) = fst (Serve_operator ok' cs w)"
    for ok'
    by (simp add: Serve_operator_def Let_def accept_loop_skips_errors)
  have "fst (Serve_operator True cs w) = Running" if "\<forall>c\<in>set cs. c = AcceptError"
  proof -
    from that have "filter (\<lambda>c. c \<noteq> AcceptError) cs = []"
      by (induction cs) simp_all
    with b [of True] show ?thesis
      by (simp add: Serve_operator_def Let_def)
  qed
  with a b show ?thesis by blast
qed

text \<open>
  A failed accept followed by an \<open>exit\<close> request: the loop ends by the termination
  signal of that request, as it does without the failed accept.
\<close>

theorem serve_ends_only_by_exception_witness:
  "fst (Serve_operator True failed_accept_then_exit (initial_world {})) =
     Thrown (RuntimeError ''shutdown requested'') \<and>
   Accepted exit_request None \<in> set failed_accept_then_exit \<and>
   fst (parseJson Socket True exit_request None (initial_world {})) =
     Some (RuntimeError ''shutdown requested'') \<and>
   fst (Serve_operator True [Accepted exit_request None] (initial_world {})) =
     fst (Serve_operator True failed_accept_then_exit (initial_world {}))"
proof -
  have f: "filter (\<lambda>c. c \<noteq> AcceptError) failed_accept_then_exit = [Accepted exit_request None]"
    by (simp add: failed_accept_then_exit_def)
  have t: "fst (Serve_operator True failed_accept_then_exit (initial_world {})) =
     Thrown (RuntimeError ''shutdown requested'')"
    by (simp add: failed_accept_then_exit_def exit_request_def server_eval dispatch_eval)
  from serve_ends_only_by_exception
    [of True failed_accept_then_exit "initial_world {}" "RuntimeError ''shutdown requested''"]
    f t parseJson_exit [of Socket True None "initial_world {}"]
  show ?thesis by (simp add: failed_accept_then_exit_def)
qed

subsection \<open>Startup and the two modes of \<open>main\<close>\<close>

lemma requests_read_append [simp]:
  "requests_read (xs @ ys) = requests_read xs @ requests_read ys"
  by (induction xs rule: requests_read.induct) simp_all

text \<open>
  Claim C8: if \<open>inotify_init\<close> fails, the construction of the watcher throws, the
  handler of \<open>main\<close> catches the exception and \<open>main\<close> returns \<open>EXIT_FAILURE\<close>; by
  then only the update thread has been started: no pid file, no socket, no accepted
  connection and no request read.
\<close>

theorem inotify_init_failure_aborts_startup:
  assumes "getopt_ok e" and "help_count e = 0" and "HAVE_INOTIFY e" and "inotify_init e = - 1"
  shows "Inotify (inotify_init e) = Inl (RuntimeError ''inotify'') \<and>
         main e w = (Exit EXIT_FAILURE,
            perform (Cerr ''Caught exception: inotify'')
              (perform (PError ''inotify_init'') (perform (Start UpdateThread) w))) \<and>
         files (snd (main e (initial_world fs))) = fs \<and>
         filter is_server_event (trace (snd (main e (initial_world fs)))) = [] \<and>
         requests_read (trace (snd (main e (initial_world fs)))) = []"
  using assms by (simp add: main_def main_try_def start_watch_def Inotify_def initial_world_def)

text \<open>The theorem on a server start where \<open>inotify_init\<close> returns \<open>-1\<close>.\<close>

theorem inotify_init_failure_aborts_startup_witness:
  "getopt_ok no_inotify_env \<and> help_count no_inotify_env = 0 \<and> HAVE_INOTIFY no_inotify_env \<and>
   inotify_init no_inotify_env = - 1 \<and>
   fst (main no_inotify_env (initial_world {})) = Exit 1 \<and>
   trace (snd (main no_inotify_env (initial_world {}))) =
     [Start UpdateThread, PError ''inotify_init'', Cerr ''Caught exception: inotify'']"
proof -
  have hyps: "getopt_ok no_inotify_env" "help_count no_inotify_env = 0"
    "HAVE_INOTIFY no_inotify_env" "inotify_init no_inotify_env = - 1"
    by (simp_all add: no_inotify_env_def server_env_def)
  from inotify_init_failure_aborts_startup [OF hyps, of "initial_world {}"] hyps
  show ?thesis by (simp add: initial_world_def EXIT_FAILURE_def)
qed

lemma run_effects:
  "\<exists>xs. trace (snd (run c io fails w)) = trace w @ xs \<and>
        (\<forall>x\<in>set xs. \<not> is_server_event x \<and> written_to x \<in> {None, Some io}) \<and>
        (\<exists>x\<in>set xs. written_to x = Some io) \<and>
        requests_read xs = [] \<and> files (snd (run c io fails w)) = files w"
  by (cases c) (simp_all add: executor_def IndexCommand_run_def ExitCommand_run_def)

lemma parseJson_effects:
  "\<exists>xs. trace (snd (parseJson io False r fails w)) = trace w @ ReadRequest io r # xs \<and>
        (\<forall>x\<in>set xs. \<not> is_server_event x \<and> written_to x \<in> {None, Some io}) \<and>
        (\<exists>x\<in>set xs. written_to x = Some io) \<and>
        requests_read xs = [] \<and> files (snd (parseJson io False r fails w)) = files w"
proof (cases "map_of registry (commandName r)")
  case None
  then show ?thesis by (simp add: parseJson_def)
next
  case (Some c)
  obtain err p where b: "bind_command c (optionValues r) (commands w) = (err, p)"
    by (cases "bind_command c (optionValues r) (commands w)")
  show ?thesis
  proof (cases err)
    case None
    let ?w = "(perform (ReadRequest io r) w)\<lparr>commands := p\<rparr>"
    obtain xs where "trace (snd (run c io fails ?w)) = trace ?w @ xs"
      "\<forall>x\<in>set xs. \<not> is_server_event x \<and> written_to x \<in> {None, Some io}"
      "\<exists>x\<in>set xs. written_to x = Some io"
      "requests_read xs = []" "files (snd (run c io fails ?w)) = files ?w"
      using run_effects by blast
    with Some b None show ?thesis by (simp add: parseJson_def)
  next
    case (Some e)
    with \<open>map_of registry (commandName r) = Some c\<close> b show ?thesis
      by (simp add: parseJson_def)
  qed
qed

lemma stop_threads_effects:
  "\<exists>ys. trace (stop_threads e w) = trace w @ ys \<and> filter is_server_event ys = [] \<and>
      requests_read ys = [] \<and> (\<forall>x\<in>set ys. written_to x = None)"
  by (auto simp: stop_threads_def)

lemma main_stdin:
  assumes "0 < stdin_count e" and "getopt_ok e" and "help_count e = 0"
    and "\<not> (HAVE_INOTIFY e \<and> inotify_init e = - 1)"
  shows "files (snd (main e (initial_world fs))) = fs \<and>
     filter is_server_event (trace (snd (main e (initial_world fs)))) = [] \<and>
     requests_read (trace (snd (main e (initial_world fs)))) = [(Stdio, stdin_request e)] \<and>
     (\<exists>x\<in>set (trace (snd (main e (initial_world fs)))). written_to x = Some Stdio) \<and>
     (\<forall>x\<in>set (trace (snd (main e (initial_world fs)))). written_to x \<in> {None, Some Stdio})"
proof -
  have "\<exists>w0. start_watch e (perform (Start UpdateThread) (initial_world fs)) = (None, w0) \<and>
      files w0 = fs \<and> filter is_server_event (trace w0) = [] \<and> requests_read (trace w0) = [] \<and>
      (\<forall>x\<in>set (trace w0). written_to x = None)"
    using assms(4)
    by (cases "HAVE_INOTIFY e") (simp_all add: start_watch_def Inotify_def initial_world_def)
  then obtain w0
    where sw: "start_watch e (perform (Start UpdateThread) (initial_world fs)) = (None, w0)"
      and w0: "files w0 = fs" "filter is_server_event (trace w0) = []"
        "requests_read (trace w0) = []" "\<forall>x\<in>set (trace w0). written_to x = None"
    by blast
  define w1 where "w1 = w0\<lparr>commands := new_parser\<rparr>"
  have w1: "files w1 = fs" "filter is_server_event (trace w1) = []"
    "requests_read (trace w1) = []" "\<forall>x\<in>set (trace w1). written_to x = None"
    using w0 by (simp_all add: w1_def)
  obtain a w2 where p: "parseJson Stdio False (stdin_request e) (stdin_fails e) w1 = (a, w2)"
    by (cases "parseJson Stdio False (stdin_request e) (stdin_fails e) w1")
  obtain xs where xs: "trace w2 = trace w1 @ ReadRequest Stdio (stdin_request e) # xs"
    "\<forall>x\<in>set xs. \<not> is_server_event x \<and> written_to x \<in> {None, Some Stdio}"
    "\<exists>x\<in>set xs. written_to x = Some Stdio"
    "requests_read xs = []" "files w2 = files w1"
    using parseJson_effects [of Stdio "stdin_request e" "stdin_fails e" w1] by (auto simp: p)
  have w2: "files w2 = fs" "filter is_server_event (trace w2) = []"
    "requests_read (trace w2) = [(Stdio, stdin_request e)]"
    "\<exists>x\<in>set (trace w2). written_to x = Some Stdio"
    "\<forall>x\<in>set (trace w2). written_to x \<in> {None, Some Stdio}"
    using xs w1 by auto
  have m: "main_try e (initial_world fs) =
     (case a of Some x \<Rightarrow> (Some (Thrown x), w2) | None \<Rightarrow> (None, stop_threads e w2))"
    using assms(1) p by (simp add: main_try_def sw w1_def [symmetric])
  obtain ys where ys: "trace (stop_threads e w2) = trace w2 @ ys"
    "filter is_server_event ys = []" "requests_read ys = []" "\<forall>x\<in>set ys. written_to x = None"
    using stop_threads_effects by blast
  show ?thesis
  proof (cases a)
    case None
    with m assms(2,3) have "snd (main e (initial_world fs)) = stop_threads e w2"
      by (simp add: main_def)
    with w2 ys show ?thesis by auto
  next
    case (Some x)
    with m assms(2,3) have "snd (main e (initial_world fs)) =
       (if std_exception x then perform (Cerr (''Caught exception: '' @ what x)) w2 else w2)"
      by (simp add: main_def)
    with w2 show ?thesis by auto
  qed
qed

lemma main_stdin_no_server:
  assumes "0 < stdin_count e"
  shows "files (snd (main e (initial_world fs))) = fs \<and>
     filter is_server_event (trace (snd (main e (initial_world fs)))) = []"
proof (cases "getopt_ok e \<and> help_count e = 0")
  case False
  then show ?thesis by (auto simp: main_def initial_world_def)
next
  case True
  show ?thesis
  proof (cases "HAVE_INOTIFY e \<and> inotify_init e = - 1")
    case False
    with True assms show ?thesis using main_stdin by blast
  next
    case t: True
    with True show ?thesis
      by (simp add: main_def main_try_def start_watch_def Inotify_def initial_world_def)
  qed
qed

text \<open>
  Claim C10: invoked with the \<open>stdin\<close> option the program never constructs the
  server: it creates and removes no file of the working directory, binds no socket and
  accepts no connection; and once its startup has succeeded it reads one request, from
  the standard input, writes a response to the standard output, and writes nothing to
  any other stream.
\<close>

theorem stdin_mode_never_constructs_server:
  assumes "0 < stdin_count e"
  shows "files (snd (main e (initial_world fs))) = fs \<and>
     filter is_server_event (trace (snd (main e (initial_world fs)))) = [] \<and>
     (getopt_ok e \<and> help_count e = 0 \<and> \<not> (HAVE_INOTIFY e \<and> inotify_init e = - 1) \<longrightarrow>
        requests_read (trace (snd (main e (initial_world fs)))) = [(Stdio, stdin_request e)] \<and>
        (\<exists>x\<in>set (trace (snd (main e (initial_world fs)))). written_to x = Some Stdio) \<and>
        (\<forall>x\<in>set (trace (snd (main e (initial_world fs)))). written_to x \<in> {None, Some Stdio}))"
  using main_stdin [of e fs] main_stdin_no_server [OF assms, of fs] assms by blast

text \<open>A run with \<open>--stdin\<close> on a \<open>find\<close> request.\<close>

lemma stdin_env_run:
  "main stdin_env (initial_world {}) =
     (Exit 0,
      \<lparr>files = {},
       commands = new_parser
         \<lparr>FindCommand_args :=
            \<lparr>find_fileName = ''a.cpp'', find_offset = 120, find_mostSpecific = False,
             find_diagnostics = True, find_fromIndex = True\<rparr>\<rparr>,
       trace =
         [Start UpdateThread, Start WatchThread, ReadRequest Stdio (find_request ''a.cpp'' 120),
          Executor Stdio (RunFind
            \<lparr>find_fileName = ''a.cpp'', find_offset = 120, find_mostSpecific = False,
             find_diagnostics = True, find_fromIndex = True\<rparr>),
          Interrupt UpdateThread, Interrupt WatchThread, Join UpdateThread, Join WatchThread]\<rparr>)"
  by (simp add: stdin_env_def server_env_def main_eval initial_world_def new_parser_def
      find_request_def dispatch_eval perform_def)

theorem stdin_mode_never_constructs_server_witness:
  "0 < stdin_count stdin_env \<and> getopt_ok stdin_env \<and> help_count stdin_env = 0 \<and>
   inotify_init stdin_env = 3 \<and>
   files (snd (main stdin_env (initial_world {}))) = {} \<and>
   filter is_server_event (trace (snd (main stdin_env (initial_world {})))) = [] \<and>
   requests_read (trace (snd (main stdin_env (initial_world {})))) =
     [(Stdio, find_request ''a.cpp'' 120)] \<and>
   [x \<leftarrow> trace (snd (main stdin_env (initial_world {}))). written_to x \<noteq> None] =
     [Executor Stdio (RunFind
        \<lparr>find_fileName = ''a.cpp'', find_offset = 120, find_mostSpecific = False,
         find_diagnostics = True, find_fromIndex = True\<rparr>)] \<and>
   fst (main stdin_env (initial_world {})) = Exit 0"
proof -
  have hyps: "0 < stdin_count stdin_env" "getopt_ok stdin_env" "help_count stdin_env = 0"
    "inotify_init stdin_env = 3" "stdin_request stdin_env = find_request ''a.cpp'' 120"
    by (simp_all add: stdin_env_def server_env_def)
  from stdin_mode_never_constructs_server [OF hyps(1), of "{}"] hyps stdin_env_run
  show ?thesis by simp
qed

section \<open>Properties of the \<open>index\<close> command\<close>





lemma generation_request_generation [simp]: "generation (request_generation g r) = generation r"
  by (simp add: request_generation_def)
















text \<open>The command finishes once the engine has had its turns.\<close>

lemma two_rounds_complete:
  assumes "requestedGeneration r = generation r + 1"
  shows "generation r + 1 \<le> generation (fst (Run_step (fst (Run_step r))))"
  using assms by (cases "phase r = Rebuilding") (simp_all add: Run_step_def pending_def)

lemma index_command_finishes:
  assumes "requestedGeneration r \<le> generation r + 1"
  shows "todo (interleave fair_schedule (start_index io r)) = [] \<and>
         Cout io ''Done.'' \<in> set (history (interleave fair_schedule (start_index io r)))"
proof -
  define r1 where "r1 = RequestRebuild r"
  have r1: "requestedGeneration r1 = generation r1 + 1" "generation r1 = generation r"
    using assms by (simp_all add: r1_def RequestRebuild_def request_generation_def)
  define s3 where "s3 = \<lparr>todo = [CallWait, Cout io ''Done.''], waiting = Some (generation r + 1),
     engine = r1, history = [CallIndex, Cout io ''Waiting for the index to be rebuilt...'']\<rparr>"
  have a: "command_step (command_step (command_step (start_index io r))) = s3"
    using r1 by (simp add: s3_def start_index_def IndexCommand_run_def command_step_def
        r1_def [symmetric] wait_target_def request_generation_def)
  define s5 where "s5 = engine_step (engine_step s3)"
  have s5: "todo s5 = [CallWait, Cout io ''Done.'']" "waiting s5 = Some (generation r + 1)"
    "generation r + 1 \<le> generation (engine s5)"
    using two_rounds_complete [OF r1(1)] r1(2)
    by (auto simp: s5_def s3_def engine_step_def split: prod.splits)
  have "todo (command_step (command_step s5)) = [] \<and>
     Cout io ''Done.'' \<in> set (history (command_step (command_step s5)))"
    using s5 by (simp add: command_step_def)
  then show ?thesis
    by (simp add: fair_schedule_def a s5_def)
qed

end
